theory Spec2Isabelle
  imports Complex_Main
begin

section \<open>Numeric values\<close>

text \<open>
  A numpy \<open>float64\<close> is modelled as an exact real number, extended with the two
  infinities and NaN that numpy's elementwise operations produce instead of raising.
  Arithmetic on numbers is exact here: rounding, overflow and underflow are outside this
  first model, which serves the properties of shape, control flow and errors. The
  rounding of float64 is modelled further down, for the properties that depend on it.
  \<open>Infty True\<close> is \<open>+inf\<close>, \<open>Infty False\<close> is \<open>-inf\<close>.
\<close>

datatype float64 = Num real | Infty bool | NaN

fun f_neg :: "float64 \<Rightarrow> float64" where
  "f_neg (Num x) = Num (- x)"
| "f_neg (Infty s) = Infty (\<not> s)"
| "f_neg NaN = NaN"

fun f_add :: "float64 \<Rightarrow> float64 \<Rightarrow> float64" where
  "f_add (Num a) (Num b) = Num (a + b)"
| "f_add NaN _ = NaN"
| "f_add _ NaN = NaN"
| "f_add (Infty s) (Infty t) = (if s = t then Infty s else NaN)"
| "f_add (Infty s) (Num _) = Infty s"
| "f_add (Num _) (Infty t) = Infty t"

definition f_sub :: "float64 \<Rightarrow> float64 \<Rightarrow> float64" where
  "f_sub a b = f_add a (f_neg b)"

fun f_mul :: "float64 \<Rightarrow> float64 \<Rightarrow> float64" where
  "f_mul (Num a) (Num b) = Num (a * b)"
| "f_mul NaN _ = NaN"
| "f_mul _ NaN = NaN"
| "f_mul (Infty s) (Infty t) = Infty (s = t)"
| "f_mul (Infty s) (Num b) = (if b = 0 then NaN else Infty (s = (0 < b)))"
| "f_mul (Num a) (Infty t) = (if a = 0 then NaN else Infty (t = (0 < a)))"

text \<open>
  numpy's elementwise \<open>/\<close> (\<open>true_divide\<close>): a zero divisor gives NaN for \<open>0/0\<close> and an
  infinity otherwise, with a RuntimeWarning and no exception.
\<close>

fun f_div :: "float64 \<Rightarrow> float64 \<Rightarrow> float64" where
  "f_div (Num a) (Num b) =
     (if b \<noteq> 0 then Num (a / b) else if a = 0 then NaN else Infty (0 < a))"
| "f_div NaN _ = NaN"
| "f_div _ NaN = NaN"
| "f_div (Infty s) (Infty t) = NaN"
| "f_div (Infty s) (Num b) = Infty (s = (0 \<le> b))"
| "f_div (Num a) (Infty t) = Num 0"

fun f_cos :: "float64 \<Rightarrow> float64" where
  "f_cos (Num x) = Num (cos x)"
| "f_cos (Infty s) = NaN"
| "f_cos NaN = NaN"

section \<open>Window generators (core/windowing.py)\<close>

text \<open>\<open>np.arange(N)\<close> for an integer \<open>N\<close>: empty when \<open>N \<le> 0\<close>.\<close>

definition arange :: "int \<Rightarrow> real list" where
  "arange N = map real [0..<nat N]"

definition hamming_window :: "int \<Rightarrow> float64 list" where
  "hamming_window N =
     map (\<lambda>n. f_sub (Num 0.54)
                 (f_mul (Num 0.46) (f_cos (f_div (Num (2 * pi * n)) (Num (of_int (N - 1)))))))
         (arange N)"

definition hanning_window :: "int \<Rightarrow> float64 list" where
  "hanning_window N =
     map (\<lambda>n. f_mul (Num 0.5)
                 (f_sub (Num 1) (f_cos (f_div (Num (2 * pi * n)) (Num (of_int (N - 1)))))))
         (arange N)"

definition blackman_window :: "int \<Rightarrow> float64 list" where
  "blackman_window N =
     map (\<lambda>n. f_add
                 (f_sub (Num 0.42)
                    (f_mul (Num 0.5) (f_cos (f_div (Num (2 * pi * n)) (Num (of_int (N - 1)))))))
                 (f_mul (Num 0.08) (f_cos (f_div (Num (4 * pi * n)) (Num (of_int (N - 1)))))))
         (arange N)"

section \<open>Errors\<close>

text \<open>
  The exceptions the modelled code can raise. A function that can raise returns
  \<open>error + 'a\<close>, with \<open>Inl\<close> the exception.
\<close>

datatype error = ValueError string | ZeroDivisionError | IndexError

section \<open>Windowing applier (core/windowing.py)\<close>

text \<open>
  \<open>apply_window(signal, window_type)\<close>: the window has the length of the signal, the
  product \<open>signal * window\<close> is elementwise, and any other tag raises a ValueError whose
  message is the f-string \<open>Unsupported window type: {window_type}\<close>.
\<close>

definition apply_window :: "float64 list \<Rightarrow> string \<Rightarrow> error + float64 list" where
  "apply_window signal window_type =
     (let N = int (length signal) in
      if window_type = ''hamming'' then Inr (map2 f_mul signal (hamming_window N))
      else if window_type = ''hanning'' then Inr (map2 f_mul signal (hanning_window N))
      else if window_type = ''blackman'' then Inr (map2 f_mul signal (blackman_window N))
      else Inl (ValueError (''Unsupported window type: '' @ window_type)))"

section \<open>The numpy primitives used by the STFT engine\<close>

text \<open>
  A numpy \<open>complex128\<close>: an exact complex number, or \<open>CNonFinite\<close> for a value with a NaN
  or infinite component.
\<close>

datatype complex128 = CNum complex | CNonFinite

text \<open>
  \<open>np.fft.rfft\<close> is numpy's, not this package's. It is modelled by its documented
  definition: the discrete Fourier transform \<open>X[k] = \<Sum>n. x[n] * exp (-2\<pi>i k n / N)\<close>
  for the bins \<open>k = 0 .. N div 2\<close>, a ValueError for an empty input, and a non-finite
  value in every bin as soon as one sample is not a number.
\<close>

definition dft_bin :: "real list \<Rightarrow> nat \<Rightarrow> complex" where
  "dft_bin xs k =
     (\<Sum>n = 0..<length xs.
        complex_of_real (xs ! n) * cis (- (2 * pi * real k * real n / real (length xs))))"

fun finite_values :: "float64 list \<Rightarrow> real list option" where
  "finite_values [] = Some []"
| "finite_values (Num x # xs) = map_option ((#) x) (finite_values xs)"
| "finite_values (_ # xs) = None"

definition np_rfft :: "float64 list \<Rightarrow> error + complex128 list" where
  "np_rfft a =
     (if a = [] then Inl (ValueError ''Invalid number of FFT data points (0) specified.'')
      else case finite_values a of
             Some xs \<Rightarrow> Inr (map (\<lambda>k. CNum (dft_bin xs k)) [0..<length a div 2 + 1])
           | None \<Rightarrow> Inr (replicate (length a div 2 + 1) CNonFinite))"

text \<open>A two-dimensional ndarray: its shape and its rows.\<close>

record 'a ndarray2 =
  shape :: "nat \<times> nat"
  rows :: "'a list list"

text \<open>\<open>np.zeros((r, c), dtype=complex)\<close> refuses a negative dimension.\<close>

definition np_zeros :: "int \<times> int \<Rightarrow> error + complex128 ndarray2" where
  "np_zeros d =
     (case d of (r, c) \<Rightarrow>
        if r < 0 \<or> c < 0 then Inl (ValueError ''negative dimensions are not allowed'')
        else Inr \<lparr>shape = (nat r, nat c),
                  rows = replicate (nat r) (replicate (nat c) (CNum 0))\<rparr>)"

text \<open>
  The row assignment \<open>A[i] = r\<close>: the index must be in range, and \<open>r\<close> must have the
  length of a row or length one (which numpy broadcasts); numpy's message for any other
  length also prints the two shapes.
\<close>

definition set_row :: "'a ndarray2 \<Rightarrow> nat \<Rightarrow> 'a list \<Rightarrow> error + 'a ndarray2" where
  "set_row A i r =
     (if fst (shape A) \<le> i then Inl IndexError
      else if length r = snd (shape A) then Inr (A\<lparr>rows := (rows A)[i := r]\<rparr>)
      else if length r = 1
        then Inr (A\<lparr>rows := (rows A)[i := replicate (snd (shape A)) (hd r)]\<rparr>)
      else Inl (ValueError ''could not broadcast input array''))"

text \<open>Python's scalar \<open>a / b\<close> on floats raises on a zero divisor.\<close>

definition py_truediv :: "real \<Rightarrow> real \<Rightarrow> error + real" where
  "py_truediv a b = (if b = 0 then Inl ZeroDivisionError else Inr (a / b))"

text \<open>
  \<open>np.fft.rfftfreq(n, d)\<close>: \<open>val = 1.0 / (n * d)\<close> in Python scalars, then
  \<open>arange(0, n // 2 + 1) * val\<close>.
\<close>

definition np_rfftfreq :: "int \<Rightarrow> real \<Rightarrow> error + float64 list" where
  "np_rfftfreq n d =
     (case py_truediv 1 (real_of_int n * d) of
        Inl e \<Rightarrow> Inl e
      | Inr val \<Rightarrow> Inr (map (\<lambda>k. f_mul (Num k) (Num val)) (arange (n div 2 + 1))))"

text \<open>
  The slice \<open>xs[a:b]\<close> for indices that are not negative: both ends are clamped to the
  length.
\<close>

definition py_slice :: "'a list \<Rightarrow> nat \<Rightarrow> nat \<Rightarrow> 'a list" where
  "py_slice xs a b = take (b - a) (drop a xs)"

section \<open>Short-time Fourier transform (core/stft.py)\<close>

text \<open>
  The loop \<open>for i in range(num_windows)\<close> of \<open>compute_stft\<close>, as a recursion over the
  indices still to visit; the first exception ends it.
\<close>

fun stft_loop ::
  "float64 list \<Rightarrow> int \<Rightarrow> int \<Rightarrow> string \<Rightarrow> nat list \<Rightarrow> complex128 ndarray2
     \<Rightarrow> error + complex128 ndarray2" where
  "stft_loop signal window_size hop_length window_type [] stft_matrix = Inr stft_matrix"
| "stft_loop signal window_size hop_length window_type (i # is) stft_matrix =
     (let start = i * nat hop_length;
          end = start + nat window_size;
          window = py_slice signal start end
      in case apply_window window window_type of
           Inl e \<Rightarrow> Inl e
         | Inr windowed \<Rightarrow>
             (case np_rfft windowed of
                Inl e \<Rightarrow> Inl e
              | Inr r \<Rightarrow>
                  (case set_row stft_matrix i r of
                     Inl e \<Rightarrow> Inl e
                   | Inr stft_matrix' \<Rightarrow>
                       stft_loop signal window_size hop_length window_type is stft_matrix')))"

definition compute_stft ::
  "float64 list \<Rightarrow> real \<Rightarrow> int \<Rightarrow> int \<Rightarrow> string
     \<Rightarrow> error + (float64 list \<times> float64 list \<times> complex128 ndarray2)" where
  "compute_stft signal sampling_rate window_size hop_length window_type =
     (if window_size \<le> 0 then Inl (ValueError ''window_size must be positive'')
      else if hop_length \<le> 0 then Inl (ValueError ''hop_length must be positive'')
      else if hop_length > window_size
        then Inl (ValueError ''hop_length must be less than or equal to window_size'')
      else
        let num_samples = int (length signal);
            num_windows = 1 + (num_samples - window_size) div hop_length
        in case np_zeros (num_windows, window_size div 2 + 1) of
             Inl e \<Rightarrow> Inl e
           | Inr stft_matrix \<Rightarrow>
               (case py_truediv 1 sampling_rate of
                  Inl e \<Rightarrow> Inl e
                | Inr d \<Rightarrow>
                    (case np_rfftfreq window_size d of
                       Inl e \<Rightarrow> Inl e
                     | Inr freqs \<Rightarrow>
                         let times = map (\<lambda>i. f_div (f_mul (Num i) (Num (real_of_int hop_length)))
                                                  (Num sampling_rate))
                                       (arange num_windows)
                         in case stft_loop signal window_size hop_length window_type
                                   [0..<nat num_windows] stft_matrix of
                              Inl e \<Rightarrow> Inl e
                            | Inr M \<Rightarrow> Inr (times, freqs, M))))"

section \<open>Spectrogram normaliser (core/stft.py)\<close>

text \<open>
  \<open>compute_spectrogram\<close> works on a matrix of complex numbers; entries with a NaN or
  infinite component are outside this model. The reductions \<open>a.max()\<close> and \<open>a.min()\<close>
  raise a ValueError on an array without elements.
\<close>

definition map_array :: "('a \<Rightarrow> 'b) \<Rightarrow> 'a ndarray2 \<Rightarrow> 'b ndarray2" where
  "map_array f A = \<lparr>shape = shape A, rows = map (map f) (rows A)\<rparr>"

text \<open>The elements of an array in row-major order; the array is empty when there are none.\<close>

definition elements :: "'a ndarray2 \<Rightarrow> 'a list" where
  "elements A = concat (rows A)"

definition np_amax :: "real ndarray2 \<Rightarrow> error + real" where
  "np_amax A =
     (case elements A of
        [] \<Rightarrow> Inl (ValueError
                 ''zero-size array to reduction operation maximum which has no identity'')
      | x # xs \<Rightarrow> Inr (fold max xs x))"

definition np_amin :: "real ndarray2 \<Rightarrow> error + real" where
  "np_amin A =
     (case elements A of
        [] \<Rightarrow> Inl (ValueError
                 ''zero-size array to reduction operation minimum which has no identity'')
      | x # xs \<Rightarrow> Inr (fold min xs x))"

text \<open>\<open>np.finfo(float).eps\<close>, the float64 machine epsilon \<open>2 ** -52\<close>.\<close>

definition eps :: real where
  "eps = 1 / 2 ^ 52"

definition compute_spectrogram ::
  "float64 list \<Rightarrow> float64 list \<Rightarrow> complex ndarray2 \<Rightarrow> real \<Rightarrow> error + real ndarray2" where
  "compute_spectrogram times' freqs stft_matrix db_range =
     (let power = map_array (\<lambda>z. (cmod z) ^ 2) stft_matrix
      in case np_amax power of
           Inl e \<Rightarrow> Inl e
         | Inr power_max \<Rightarrow>
             (let power_min = power_max * 10 powr (- db_range / 10);
                  power_db = map_array (\<lambda>p. 10 * log 10 (max p eps)) power
              in case np_amax power_db of
                   Inl e \<Rightarrow> Inl e
                 | Inr peak \<Rightarrow>
                     (let power_db_norm = map_array (\<lambda>x. max x (peak - db_range)) power_db
                      in Inr power_db_norm)))"

text \<open>
  The peak that the specification names: \<open>10 * log10 (max (max |M[i,k]|^2, eps))\<close>,
  the power of the strongest bin in dB before any clamping.
\<close>

definition unnormalized_peak_db :: "complex ndarray2 \<Rightarrow> error + real" where
  "unnormalized_peak_db M =
     (case np_amax (map_array (\<lambda>z. (cmod z) ^ 2) M) of
        Inl e \<Rightarrow> Inl e
      | Inr power_max \<Rightarrow> Inr (10 * log 10 (max power_max eps)))"

section \<open>Transform engine (core/signal_processing.py)\<close>







section \<open>float64 rounding\<close>

text \<open>
  The properties that depend on rounding use a second model of the same operations, in
  which every float64 operation returns the exact result rounded to the nearest number
  with a 53-bit significand, ties to even (IEEE 754 binary64, round-to-nearest-even).
  The exponent range is unbounded there: overflow to infinity and subnormal numbers are
  outside the model. \<open>binade x\<close> is the exponent \<open>e\<close> with \<open>2^e \<le> |x| < 2^(e+1)\<close>, and the
  numbers of that binade are the multiples of \<open>2^(e-52)\<close>. The library functions
  (\<open>log10\<close>, \<open>cos\<close>, the modulus of a complex number) are taken as correctly rounded.
\<close>

definition binade :: "real \<Rightarrow> int" where
  "binade x = \<lfloor>log 2 \<bar>x\<bar>\<rfloor>"

definition round_even :: "real \<Rightarrow> int" where
  "round_even y =
     (let f = \<lfloor>y\<rfloor>
      in if y - of_int f < 1 / 2 then f
         else if 1 / 2 < y - of_int f then f + 1
         else if even f then f else f + 1)"

definition pow2 :: "int \<Rightarrow> real" where
  "pow2 k = (if 0 \<le> k then 2 ^ nat k else 1 / 2 ^ nat (- k))"

definition rnd :: "real \<Rightarrow> real" where
  "rnd x =
     (if x = 0 then 0
      else of_int (round_even (x / pow2 (binade x - 52))) * pow2 (binade x - 52))"

section \<open>Spectrogram normaliser in float64 (core/stft.py)\<close>

text \<open>
  \<open>compute_spectrogram\<close> with every operation rounded: the modulus and its square, the
  unused \<open>power_min\<close>, \<open>log10\<close> and its product with 10, and the floor
  \<open>power_db.max() - db_range\<close>. The matrix entries and \<open>db_range\<close> are float64 numbers.
\<close>

definition compute_spectrogram_f64 ::
  "float64 list \<Rightarrow> float64 list \<Rightarrow> complex ndarray2 \<Rightarrow> real \<Rightarrow> error + real ndarray2" where
  "compute_spectrogram_f64 times' freqs stft_matrix db_range =
     (let power = map_array (\<lambda>z. rnd ((rnd (cmod z)) ^ 2)) stft_matrix
      in case np_amax power of
           Inl e \<Rightarrow> Inl e
         | Inr power_max \<Rightarrow>
             (let power_min = rnd (power_max * rnd (10 powr rnd (- db_range / 10)));
                  power_db = map_array (\<lambda>p. rnd (10 * rnd (log 10 (max p eps)))) power
              in case np_amax power_db of
                   Inl e \<Rightarrow> Inl e
                 | Inr peak \<Rightarrow>
                     (let power_db_norm =
                            map_array (\<lambda>x. max x (rnd (peak - db_range))) power_db
                      in Inr power_db_norm)))"

section \<open>Transform engine on two samples in float64 (core/signal_processing.py)\<close>





section \<open>Window generators in float64 (core/windowing.py)\<close>

text \<open>
  The three generators with every operation rounded. \<open>np.pi\<close> is the float64 nearest to
  \<open>pi\<close>; \<open>f64_of\<close> is a literal, or an integer converted to float64; \<open>f64_add\<close>,
  \<open>f64_sub\<close>, \<open>f64_mul\<close>, \<open>f64_div\<close> and \<open>f64_cos\<close> are numpy's elementwise
  \<open>+\<close>, \<open>-\<close>, \<open>*\<close>, \<open>/\<close> and \<open>np.cos\<close>, the exact operation followed by one rounding.
  The products \<open>2 * np.pi\<close> and \<open>4 * np.pi\<close> are Python floats, computed before the array
  \<open>n\<close> of integers is multiplied in.
\<close>

definition np_pi :: real where
  "np_pi = rnd pi"

text \<open>One rounding of a value; the infinities and NaN are kept.\<close>

definition fl :: "float64 \<Rightarrow> float64" where
  "fl a = (case a of Num x \<Rightarrow> Num (rnd x) | Infty s \<Rightarrow> Infty s | NaN \<Rightarrow> NaN)"

definition f64_of :: "real \<Rightarrow> float64" where
  "f64_of x = Num (rnd x)"

definition f64_add :: "float64 \<Rightarrow> float64 \<Rightarrow> float64" where
  "f64_add a b = fl (f_add a b)"

definition f64_sub :: "float64 \<Rightarrow> float64 \<Rightarrow> float64" where
  "f64_sub a b = fl (f_sub a b)"

definition f64_mul :: "float64 \<Rightarrow> float64 \<Rightarrow> float64" where
  "f64_mul a b = fl (f_mul a b)"

definition f64_div :: "float64 \<Rightarrow> float64 \<Rightarrow> float64" where
  "f64_div a b = fl (f_div a b)"

definition f64_cos :: "float64 \<Rightarrow> float64" where
  "f64_cos a = fl (f_cos a)"

definition hamming_window_f64 :: "int \<Rightarrow> float64 list" where
  "hamming_window_f64 N =
     map (\<lambda>n. f64_sub (f64_of 0.54)
                 (f64_mul (f64_of 0.46)
                    (f64_cos (f64_div (f64_mul (f64_of (2 * np_pi)) (f64_of n))
                                (f64_of (of_int (N - 1)))))))
         (arange N)"

definition hanning_window_f64 :: "int \<Rightarrow> float64 list" where
  "hanning_window_f64 N =
     map (\<lambda>n. f64_mul (f64_of 0.5)
                 (f64_sub (f64_of 1)
                    (f64_cos (f64_div (f64_mul (f64_of (2 * np_pi)) (f64_of n))
                                (f64_of (of_int (N - 1)))))))
         (arange N)"

definition blackman_window_f64 :: "int \<Rightarrow> float64 list" where
  "blackman_window_f64 N =
     map (\<lambda>n. f64_add
                 (f64_sub (f64_of 0.42)
                    (f64_mul (f64_of 0.5)
                       (f64_cos (f64_div (f64_mul (f64_of (2 * np_pi)) (f64_of n))
                                   (f64_of (of_int (N - 1)))))))
                 (f64_mul (f64_of 0.08)
                    (f64_cos (f64_div (f64_mul (f64_of (4 * np_pi)) (f64_of n))
                                (f64_of (of_int (N - 1)))))))
         (arange N)"

text \<open>
  The partial sums of the series of the arctangent, which enclose \<open>pi\<close> through Machin's
  formula \<open>pi / 4 = 4 * arctan (1 / 5) - arctan (1 / 239)\<close>.
\<close>

definition arctan_sum :: "real \<Rightarrow> nat \<Rightarrow> real" where
  "arctan_sum x n = (\<Sum>i<n. (- 1) ^ i * (1 / real (i * 2 + 1) * x ^ (i * 2 + 1)))"

section \<open>Vocabulary of the properties\<close>

text \<open>The three window-type tags that \<open>apply_window\<close> recognises.\<close>

definition recognized :: "string \<Rightarrow> bool" where
  "recognized window_type \<longleftrightarrow>
     window_type = ''hamming'' \<or> window_type = ''hanning'' \<or> window_type = ''blackman''"

text \<open>An array whose rows agree with its shape, as every ndarray does.\<close>

definition well_shaped :: "'a ndarray2 \<Rightarrow> bool" where
  "well_shaped A \<longleftrightarrow>
     length (rows A) = fst (shape A) \<and> list_all (\<lambda>r. length r = snd (shape A)) (rows A)"

section \<open>Window generators: symmetry and the one-sample window\<close>

lemma nth_arange: "n < nat N \<Longrightarrow> arange N ! n = real n"
  by (simp add: arange_def)

lemma length_arange: "length (arange N) = nat N"
  by (simp add: arange_def)

lemma window_length:
  "length (hamming_window N) = nat N"
  "length (hanning_window N) = nat N"
  "length (blackman_window N) = nat N"
  by (simp_all add: hamming_window_def hanning_window_def blackman_window_def length_arange)

lemma cos_four_pi_minus: "cos (4 * pi - x) = cos x"
proof -
  have "cos (4 * pi - x) = cos ((2 * pi - x) + 2 * pi)" by (simp add: algebra_simps)
  also have "\<dots> = cos (2 * pi - x)" by (rule cos_periodic)
  finally show ?thesis by simp
qed

text \<open>The angle of the mirrored index \<open>N - 1 - n\<close> is a full turn minus the angle of \<open>n\<close>.\<close>

lemma mirror_angle:
  assumes "2 \<le> N" "n < nat N"
  shows "c * pi * real (nat N - 1 - n) / real_of_int (N - 1)
         = c * pi - c * pi * real n / real_of_int (N - 1)"
proof -
  have d: "real_of_int (N - 1) \<noteq> 0" using assms by simp
  have "real (nat N - 1 - n) = real_of_int (N - 1) - real n"
    using assms by (simp add: of_nat_diff)
  then show ?thesis using d by (simp add: field_simps)
qed

text \<open>From two samples on, the divisor \<open>N - 1\<close> is not zero and every weight is a number.\<close>

lemma hamming_window_nth:
  assumes "2 \<le> N" "n < nat N"
  shows "hamming_window N ! n = Num (0.54 - 0.46 * cos (2 * pi * real n / real_of_int (N - 1)))"
  using assms by (simp add: hamming_window_def nth_arange length_arange f_sub_def)

lemma hanning_window_nth:
  assumes "2 \<le> N" "n < nat N"
  shows "hanning_window N ! n = Num (0.5 * (1 - cos (2 * pi * real n / real_of_int (N - 1))))"
  using assms by (simp add: hanning_window_def nth_arange length_arange f_sub_def)

lemma blackman_window_nth:
  assumes "2 \<le> N" "n < nat N"
  shows "blackman_window N ! n =
           Num (0.42 - 0.5 * cos (2 * pi * real n / real_of_int (N - 1))
                + 0.08 * cos (4 * pi * real n / real_of_int (N - 1)))"
  using assms by (simp add: blackman_window_def nth_arange length_arange f_sub_def)

lemma window_at_one:
  "hamming_window 1 = [NaN]" "hanning_window 1 = [NaN]" "blackman_window 1 = [NaN]"
  by (simp_all add: hamming_window_def hanning_window_def blackman_window_def arange_def
      f_sub_def)

text \<open>
  Without rounding, each window is symmetric from two samples on: the weight of index
  \<open>n\<close> is the weight of index \<open>N - 1 - n\<close>.
\<close>

lemma window_symmetric_exact:
  assumes "2 \<le> N" and "n < nat N"
  shows "hamming_window N ! n = hamming_window N ! (nat N - 1 - n)
       \<and> hanning_window N ! n = hanning_window N ! (nat N - 1 - n)
       \<and> blackman_window N ! n = blackman_window N ! (nat N - 1 - n)"
proof -
  have m: "nat N - 1 - n < nat N" using assms by linarith
  note a2 = mirror_angle[OF assms, of 2] and a4 = mirror_angle[OF assms, of 4]
  have "hamming_window N ! (nat N - 1 - n) = hamming_window N ! n"
    unfolding hamming_window_nth[OF assms] hamming_window_nth[OF assms(1) m] a2 by simp
  moreover have "hanning_window N ! (nat N - 1 - n) = hanning_window N ! n"
    unfolding hanning_window_nth[OF assms] hanning_window_nth[OF assms(1) m] a2 by simp
  moreover have "blackman_window N ! (nat N - 1 - n) = blackman_window N ! n"
    unfolding blackman_window_nth[OF assms] blackman_window_nth[OF assms(1) m] a2 a4
    by (simp add: cos_four_pi_minus)
  ultimately show ?thesis by simp
qed

text \<open>
  C6, as stated, asks that each generator called with \<open>N = 1\<close> fail with a division by
  zero instead of returning a window. The generators have no raising path: the division is
  numpy's elementwise one, \<open>0 / 0\<close> is NaN there, and each generator returns the window
  \<open>[NaN]\<close>; \<open>apply_window\<close>, which can raise, returns the product with it for a frame of
  one sample.
\<close>

theorem window_length_one_returns_nan:
  "hamming_window 1 = [NaN] \<and> hanning_window 1 = [NaN] \<and> blackman_window 1 = [NaN]
   \<and> apply_window [Num 1] ''hamming'' = Inr [NaN]
   \<and> apply_window [Num 1] ''hanning'' = Inr [NaN]
   \<and> apply_window [Num 1] ''blackman'' = Inr [NaN]"
  by (simp add: hamming_window_def hanning_window_def blackman_window_def arange_def f_sub_def
      apply_window_def)

text \<open>
  C6, amended. Each generator returns a window of \<open>N\<close> weights for every \<open>N\<close>, and a weight
  is NaN exactly when \<open>N = 1\<close>: the one-sample window is returned, undefined, not refused.
\<close>

theorem window_nan_iff:
  assumes "n < nat N"
  shows "length (hamming_window N) = nat N \<and> (hamming_window N ! n = NaN \<longleftrightarrow> N = 1)
       \<and> length (hanning_window N) = nat N \<and> (hanning_window N ! n = NaN \<longleftrightarrow> N = 1)
       \<and> length (blackman_window N) = nat N \<and> (blackman_window N ! n = NaN \<longleftrightarrow> N = 1)"
proof (cases "N = 1")
  case True
  with assms have "n = 0" by simp
  with True show ?thesis by (simp add: window_at_one)
next
  case False
  with assms have "2 \<le> N" by linarith
  with assms False show ?thesis
    by (simp add: hamming_window_nth hanning_window_nth blackman_window_nth window_length)
qed

theorem window_nan_iff_witness:
  "(0::nat) < nat 1
   \<and> length (hamming_window 1) = nat 1 \<and> hamming_window 1 ! 0 = NaN
   \<and> length (hanning_window 1) = nat 1 \<and> hanning_window 1 ! 0 = NaN
   \<and> length (blackman_window 1) = nat 1 \<and> blackman_window 1 ! 0 = NaN"
  using window_nan_iff[of 0 1] by simp

section \<open>Spectrogram normaliser: the clamp\<close>

lemma elements_map_array: "elements (map_array f A) = map f (elements A)"
  by (simp add: elements_def map_array_def map_concat)

text \<open>On an array with elements, the two reductions are the maximum and the minimum.\<close>

lemma np_amax_Max:
  assumes "elements A \<noteq> []"
  shows "np_amax A = Inr (Max (set (elements A)))"
proof (cases "elements A")
  case Nil
  with assms show ?thesis by simp
next
  case (Cons x xs)
  then show ?thesis
    by (simp add: np_amax_def Max.set_eq_fold del: set_simps)
qed

lemma np_amin_Min:
  assumes "elements A \<noteq> []"
  shows "np_amin A = Inr (Min (set (elements A)))"
proof (cases "elements A")
  case Nil
  with assms show ?thesis by simp
next
  case (Cons x xs)
  then show ?thesis
    by (simp add: np_amin_def Min.set_eq_fold del: set_simps)
qed

lemma compute_spectrogram_nonempty:
  assumes "elements M \<noteq> []"
  shows "compute_spectrogram ts fs M db_range =
           Inr (map_array
                  (\<lambda>x. max x (Max (set (map (\<lambda>z. 10 * log 10 (max ((cmod z) ^ 2) eps))
                                          (elements M))) - db_range))
                  (map_array (\<lambda>p. 10 * log 10 (max p eps))
                     (map_array (\<lambda>z. (cmod z) ^ 2) M)))"
  using assms
  by (simp add: compute_spectrogram_def Let_def np_amax_Max elements_map_array comp_def
      del: set_map)

text \<open>Clamping a finite set from below at \<open>Max S - d\<close> keeps its maximum and bounds its minimum.\<close>

lemma clamp_spread:
  fixes S :: "real set"
  assumes "finite S" "S \<noteq> {}" "0 \<le> d"
  shows "Max ((\<lambda>x. max x (Max S - d)) ` S) = Max S"
    and "Max S - d \<le> Min ((\<lambda>x. max x (Max S - d)) ` S)"
proof -
  let ?f = "\<lambda>x. max x (Max S - d)"
  have fin: "finite (?f ` S)" and ne: "?f ` S \<noteq> {}" using assms by auto
  have "Max S \<in> S" using assms by (simp add: Max_in)
  then have "?f (Max S) \<in> ?f ` S" by (rule imageI)
  moreover have "?f (Max S) = Max S" using assms by simp
  ultimately have in_img: "Max S \<in> ?f ` S" by simp
  have "\<forall>y \<in> ?f ` S. y \<le> Max S" using assms by auto
  with fin in_img show "Max (?f ` S) = Max S" by (intro Max_eqI) auto
  show "Max S - d \<le> Min (?f ` S)" using fin ne by (simp add: Min_ge_iff)
qed

lemma db_mono: "mono (\<lambda>p. 10 * log 10 (max p eps))"
proof (rule monoI)
  fix x y :: real
  assume "x \<le> y"
  have e: "0 < eps" by (simp add: eps_def)
  have "0 < max x eps" "max x eps \<le> max y eps" using e \<open>x \<le> y\<close> by auto
  then have "log 10 (max x eps) \<le> log 10 (max y eps)" by (simp add: log_le_cancel_iff)
  then show "10 * log 10 (max x eps) \<le> 10 * log 10 (max y eps)" by simp
qed

lemma unnormalized_peak_db_nonempty:
  assumes "elements M \<noteq> []"
  shows "unnormalized_peak_db M =
           Inr (Max (set (map (\<lambda>z. 10 * log 10 (max ((cmod z) ^ 2) eps)) (elements M))))"
proof -
  let ?P = "set (map (\<lambda>z. (cmod z) ^ 2) (elements M))"
  have P: "finite ?P" "?P \<noteq> {}" using assms by auto
  have "10 * log 10 (max (Max ?P) eps) = Max ((\<lambda>p. 10 * log 10 (max p eps)) ` ?P)"
    using mono_Max_commute[OF db_mono P] .
  also have "(\<lambda>p. 10 * log 10 (max p eps)) ` ?P
               = set (map (\<lambda>z. 10 * log 10 (max ((cmod z) ^ 2) eps)) (elements M))"
    by (simp add: image_image)
  finally show ?thesis
    using assms
    by (simp add: unnormalized_peak_db_def np_amax_Max elements_map_array del: set_map)
qed

lemma log10_100: "log 10 100 = 2"
proof -
  have "log 10 (10 powr 2) = (2::real)" by (rule log_powr_cancel) simp_all
  moreover have "(10::real) powr 2 = 100" by simp
  ultimately show ?thesis by simp
qed

lemma peak_of_ten:
  "unnormalized_peak_db \<lparr>shape = (1, 1), rows = [[10]]\<rparr> = Inr 20"
  by (simp add: unnormalized_peak_db_def map_array_def np_amax_def elements_def eps_def
      log10_100)

text \<open>A matrix without elements: \<open>power.max()\<close> raises and nothing is returned.\<close>

lemma compute_spectrogram_empty:
  assumes "elements M = []"
  shows "compute_spectrogram ts fs M db_range
           = Inl (ValueError
                    ''zero-size array to reduction operation maximum which has no identity'')"
  using assms by (simp add: compute_spectrogram_def np_amax_def elements_map_array)

text \<open>
  A matrix with an element and a range that is not negative: the result is returned, its
  maximum is the peak, and its minimum is at most \<open>db_range\<close> below.
\<close>

lemma compute_spectrogram_clamped:
  assumes "elements M \<noteq> []" and "0 \<le> db_range"
  obtains out pk mn where
    "compute_spectrogram ts fs M db_range = Inr out"
    "unnormalized_peak_db M = Inr pk" "np_amax out = Inr pk"
    "np_amin out = Inr mn" "pk - mn \<le> db_range"
proof -
  let ?db = "map (\<lambda>z. 10 * log 10 (max ((cmod z) ^ 2) eps)) (elements M)"
  let ?S = "set ?db"
  let ?out = "map_array (\<lambda>x. max x (Max ?S - db_range))
                (map_array (\<lambda>p. 10 * log 10 (max p eps)) (map_array (\<lambda>z. (cmod z) ^ 2) M))"
  have el: "elements ?out = map (\<lambda>x. max x (Max ?S - db_range)) ?db"
    by (simp add: elements_map_array comp_def)
  have ne: "elements ?out \<noteq> []" using assms(1) by (simp add: elements_map_array)
  have S: "finite ?S" "?S \<noteq> {}" using assms(1) by auto
  have img: "set (elements ?out) = (\<lambda>x. max x (Max ?S - db_range)) ` ?S"
    unfolding el by (rule set_map)
  have mx: "Max (set (elements ?out)) = Max ?S"
    unfolding img using clamp_spread(1)[OF S assms(2)] .
  have mn: "Max ?S - Min (set (elements ?out)) \<le> db_range"
    unfolding img using clamp_spread(2)[OF S assms(2)] by linarith
  show ?thesis
  proof (rule that)
    show "compute_spectrogram ts fs M db_range = Inr ?out"
      by (rule compute_spectrogram_nonempty[OF assms(1)])
    show "unnormalized_peak_db M = Inr (Max ?S)"
      by (rule unnormalized_peak_db_nonempty[OF assms(1)])
    show "np_amax ?out = Inr (Max ?S)" using np_amax_Max[OF ne] mx by simp
    show "np_amin ?out = Inr (Min (set (elements ?out)))" by (rule np_amin_Min[OF ne])
    show "Max ?S - Min (set (elements ?out)) \<le> db_range" by (rule mn)
  qed
qed

text \<open>
  Without rounding, for every matrix of complex numbers and every \<open>db_range > 0\<close>, the
  result of \<open>compute_spectrogram\<close> has its maximum minus its minimum at most \<open>db_range\<close>,
  and a result is returned for every matrix that has an element.
\<close>

lemma spectrogram_dynamic_range_exact:
  assumes "0 < db_range"
  shows "(elements M \<noteq> [] \<longrightarrow> (\<exists>out. compute_spectrogram ts fs M db_range = Inr out))
       \<and> (\<forall>out. compute_spectrogram ts fs M db_range = Inr out \<longrightarrow>
             (\<exists>mx mn. np_amax out = Inr mx \<and> np_amin out = Inr mn \<and> mx - mn \<le> db_range))"
proof (cases "elements M = []")
  case True
  then show ?thesis by (simp add: compute_spectrogram_empty)
next
  case False
  from assms have "0 \<le> db_range" by simp
  from compute_spectrogram_clamped[OF False this, of ts fs] show ?thesis
    by (metis sum.inject(2))
qed

text \<open>
  C8, as stated, holds for every \<open>db_range\<close>. With a negative \<open>db_range\<close> the clamp floor
  \<open>peak - db_range\<close> lies above the peak: for the matrix \<open>[[1]]\<close> (peak 0 dB) and
  \<open>db_range = -10\<close> the spectrogram is \<open>[[10]]\<close> and its maximum is 10, not the peak.
\<close>

theorem spectrogram_max_negative_range:
  "compute_spectrogram [] [] \<lparr>shape = (1, 1), rows = [[1]]\<rparr> (- 10)
     = Inr \<lparr>shape = (1, 1), rows = [[10]]\<rparr>
   \<and> np_amax \<lparr>shape = (1, 1), rows = [[10]]\<rparr> = Inr 10
   \<and> unnormalized_peak_db \<lparr>shape = (1, 1), rows = [[1]]\<rparr> = Inr 0"
  by (simp add: compute_spectrogram_def unnormalized_peak_db_def map_array_def np_amax_def
      elements_def eps_def)

text \<open>
  C8, amended. For every matrix of complex numbers and every \<open>db_range \<ge> 0\<close>, the maximum
  of the spectrogram returned by \<open>compute_spectrogram\<close> is the unnormalized peak
  \<open>10 * log10 (max (max |M[i,k]|^2, eps))\<close>, and a spectrogram is returned for every matrix
  that has an element; the maximum need not be 0, as the matrix \<open>[[10]]\<close> with maximum 20
  shows.
\<close>

theorem spectrogram_max_is_peak:
  assumes "0 \<le> db_range"
  shows "(elements M \<noteq> [] \<longrightarrow> (\<exists>out. compute_spectrogram ts fs M db_range = Inr out))
       \<and> (\<forall>out. compute_spectrogram ts fs M db_range = Inr out \<longrightarrow>
             np_amax out = unnormalized_peak_db M)
       \<and> (\<exists>out'. compute_spectrogram ts fs \<lparr>shape = (1, 1), rows = [[10]]\<rparr> db_range = Inr out'
             \<and> np_amax out' = Inr 20)"
proof -
  have peak: "(elements A \<noteq> [] \<longrightarrow> (\<exists>out. compute_spectrogram ts fs A db_range = Inr out))
       \<and> (\<forall>out. compute_spectrogram ts fs A db_range = Inr out \<longrightarrow>
             np_amax out = unnormalized_peak_db A)" for A
  proof (cases "elements A = []")
    case True
    then show ?thesis by (simp add: compute_spectrogram_empty)
  next
    case False
    from compute_spectrogram_clamped[OF False assms, of ts fs] show ?thesis
      by (metis sum.inject(2))
  qed
  have "elements \<lparr>shape = (1, 1), rows = [[10 :: complex]]\<rparr> \<noteq> []"
    by (simp add: elements_def)
  with peak[of "\<lparr>shape = (1, 1), rows = [[10]]\<rparr>"]
  have "\<exists>out'. compute_spectrogram ts fs \<lparr>shape = (1, 1), rows = [[10]]\<rparr> db_range = Inr out'
          \<and> np_amax out' = Inr 20"
    unfolding peak_of_ten by blast
  with peak[of M] show ?thesis by blast
qed

theorem spectrogram_max_is_peak_witness:
  "(0::real) \<le> 60
   \<and> (\<exists>out. compute_spectrogram [] [] \<lparr>shape = (1, 1), rows = [[10]]\<rparr> 60 = Inr out
          \<and> np_amax out = Inr 20)"
  using spectrogram_max_is_peak[of 60 "\<lparr>shape = (1, 1), rows = [[10]]\<rparr>" "[]" "[]"]
  by simp

text \<open>
  C10. The spectrogram depends only on the matrix and on \<open>db_range\<close>: two calls that
  differ in their \<open>times\<close> and \<open>freqs\<close> arguments alone return the same result.
\<close>

theorem spectrogram_ignores_axes:
  "compute_spectrogram times1 freqs1 M db_range = compute_spectrogram times2 freqs2 M db_range"
  by (simp add: compute_spectrogram_def)

section \<open>Short-time Fourier transform: frames, shape and errors\<close>

lemma apply_window_recognized:
  assumes "recognized window_type"
  shows "\<exists>w. apply_window xs window_type = Inr w \<and> length w = length xs"
  using assms by (auto simp: recognized_def apply_window_def window_length)

lemma apply_window_unrecognized:
  assumes "\<not> recognized window_type"
  shows "apply_window xs window_type
           = Inl (ValueError (''Unsupported window type: '' @ window_type))"
  using assms by (simp add: recognized_def apply_window_def)

lemma np_rfft_length:
  assumes "a \<noteq> []"
  shows "\<exists>r. np_rfft a = Inr r \<and> length r = length a div 2 + 1"
  using assms by (simp add: np_rfft_def split: option.split)

lemma set_row_fits:
  assumes "i < fst (shape A)" "length r = snd (shape A)"
  shows "set_row A i r = Inr (A\<lparr>rows := (rows A)[i := r]\<rparr>)"
  using assms by (simp add: set_row_def)

lemma set_row_shape:
  assumes "set_row A i r = Inr B"
  shows "shape B = shape A \<and> (well_shaped A \<longrightarrow> well_shaped B)"
proof -
  have upd: "list_all (\<lambda>r. length r = n) (xs[i := y])"
    if "list_all (\<lambda>r. length r = n) xs" "length y = n" for xs :: "'a list list" and y n
    using that by (auto simp: list_all_iff dest!: set_update_subset_insert[THEN subsetD])
  show ?thesis
    using assms by (auto simp: set_row_def well_shaped_def upd split: if_splits)
qed

lemma stft_loop_shape:
  assumes "stft_loop signal W H wt is A = Inr B"
  shows "shape B = shape A \<and> (well_shaped A \<longrightarrow> well_shaped B)"
  using assms
proof (induction "is" arbitrary: A)
  case Nil
  then show ?case by simp
next
  case (Cons i "is")
  from Cons.prems obtain w r A' where
    "set_row A i r = Inr A'" and "stft_loop signal W H wt is A' = Inr B"
    by (auto simp: Let_def split: sum.splits)
  with Cons.IH[of A'] set_row_shape[of A i r A'] show ?case by simp
qed

text \<open>Every frame that the frame-count formula admits lies inside the signal.\<close>

lemma frame_in_range:
  fixes W H len :: int
  assumes "0 < H" "W \<le> len" "i < nat (1 + (len - W) div H)"
  shows "int i * H + W \<le> len"
proof -
  have "int i \<le> (len - W) div H" using assms by linarith
  then have "int i * H \<le> (len - W) div H * H" using assms(1) by (simp add: mult_right_mono)
  also have "\<dots> \<le> len - W"
  proof -
    have "(len - W) div H * H + (len - W) mod H = len - W" by simp
    moreover have "0 \<le> (len - W) mod H" using assms(1) by simp
    ultimately show ?thesis by linarith
  qed
  finally show ?thesis by simp
qed

lemma stft_loop_total:
  assumes "recognized wt" "0 < W" "snd (shape A) = nat W div 2 + 1"
    and "\<forall>i \<in> set is. i < fst (shape A) \<and> i * nat H + nat W \<le> length signal"
  shows "\<exists>B. stft_loop signal W H wt is A = Inr B"
  using assms(3,4)
proof (induction "is" arbitrary: A)
  case Nil
  then show ?case by simp
next
  case (Cons i "is")
  let ?frame = "py_slice signal (i * nat H) (i * nat H + nat W)"
  have "i * nat H + nat W \<le> length signal" using Cons.prems(2) by simp
  then have "nat W \<le> length signal - i * nat H" by linarith
  then have len: "length ?frame = nat W" by (simp add: py_slice_def)
  obtain w where w: "apply_window ?frame wt = Inr w" "length w = nat W"
    using apply_window_recognized[OF assms(1), of ?frame] len by auto
  have "w \<noteq> []" using w(2) assms(2) by auto
  then obtain r where r: "np_rfft w = Inr r" "length r = nat W div 2 + 1"
    using np_rfft_length[of w] w(2) by auto
  have sr: "set_row A i r = Inr (A\<lparr>rows := (rows A)[i := r]\<rparr>)"
    using Cons.prems r(2) by (intro set_row_fits) auto
  have "\<exists>B. stft_loop signal W H wt is (A\<lparr>rows := (rows A)[i := r]\<rparr>) = Inr B"
    using Cons.prems by (intro Cons.IH) auto
  then show ?case using w(1) r(1) sr by (simp add: Let_def)
qed

lemma stft_loop_unrecognized:
  assumes "\<not> recognized wt" "is \<noteq> []"
  shows "stft_loop signal W H wt is A = Inl (ValueError (''Unsupported window type: '' @ wt))"
proof -
  from assms(2) obtain i rest where "is = i # rest" by (cases "is") auto
  then show ?thesis using apply_window_unrecognized[OF assms(1)] by (simp add: Let_def)
qed

lemma nat_half_plus_one: "0 < W \<Longrightarrow> nat (W div 2 + 1) = nat W div 2 + 1"
  by (simp add: nat_add_distrib nat_div_distrib)

text \<open>What \<open>compute_stft\<close> does once the three checks have passed.\<close>

lemma compute_stft_valid:
  assumes "0 < W" "0 < H" "H \<le> W"
  shows "compute_stft signal sr W H wt =
     (case np_zeros (1 + (int (length signal) - W) div H, W div 2 + 1) of
        Inl e \<Rightarrow> Inl e
      | Inr A \<Rightarrow>
          (case py_truediv 1 sr of
             Inl e \<Rightarrow> Inl e
           | Inr d \<Rightarrow>
               (case np_rfftfreq W d of
                  Inl e \<Rightarrow> Inl e
                | Inr freqs \<Rightarrow>
                    (case stft_loop signal W H wt [0..<nat (1 + (int (length signal) - W) div H)] A of
                       Inl e \<Rightarrow> Inl e
                     | Inr M \<Rightarrow>
                         Inr (map (\<lambda>i. f_div (f_mul (Num i) (Num (real_of_int H))) (Num sr))
                                (arange (1 + (int (length signal) - W) div H)), freqs, M)))))"
  unfolding compute_stft_def Let_def using assms by simp

lemma np_zeros_ok:
  assumes "0 \<le> r" "0 \<le> c"
  shows "np_zeros (r, c) = Inr \<lparr>shape = (nat r, nat c),
                               rows = replicate (nat r) (replicate (nat c) (CNum 0))\<rparr>"
  using assms by (simp add: np_zeros_def)

lemma np_zeros_well_shaped:
  "well_shaped \<lparr>shape = (m, n), rows = replicate m (replicate n x)\<rparr>"
  by (simp add: well_shaped_def list_all_iff)

lemma np_rfftfreq_ok:
  assumes "0 < W" "sr \<noteq> 0"
  shows "\<exists>freqs. np_rfftfreq W (1 / sr) = Inr freqs \<and> length freqs = nat (W div 2 + 1)"
  using assms by (simp add: np_rfftfreq_def py_truediv_def length_arange)

text \<open>
  Two calls that pass the three checks, hold a frame and still return nothing:
  \<open>sampling_rate = 0\<close> raises ZeroDivisionError at \<open>1 / sampling_rate\<close>, and a window type
  that is not recognised raises the ValueError of \<open>apply_window\<close> on the first frame.
\<close>

lemma compute_stft_raising_calls:
  "compute_stft [Num 1, Num 2] 0 2 1 ''hamming'' = Inl ZeroDivisionError
   \<and> compute_stft [Num 1, Num 2] 1 2 1 ''triangular''
       = Inl (ValueError ''Unsupported window type: triangular'')"
  by (simp add: compute_stft_def np_zeros_def py_truediv_def np_rfftfreq_def arange_def
      py_slice_def apply_window_def upt_conv_Cons)

text \<open>
  C2. For every signal with \<open>len(signal) \<ge> window_size\<close> and parameters passing
  validation, the matrix that \<open>compute_stft\<close> returns has shape exactly
  \<open>(1 + (len(signal) - window_size) // hop_length, window_size // 2 + 1)\<close>, with as many
  time stamps as rows, time stamp \<open>i\<close> being \<open>i * hop_length / sampling_rate\<close>; and
  \<open>compute_stft\<close> does return for each of the three recognised window types and every
  sampling rate other than 0.
\<close>

theorem compute_stft_shape:
  assumes "0 < window_size" and "0 < hop_length" and "hop_length \<le> window_size"
    and "window_size \<le> int (length signal)"
  shows "(recognized window_type \<and> sampling_rate \<noteq> 0 \<longrightarrow>
            (\<exists>r. compute_stft signal sampling_rate window_size hop_length window_type = Inr r))
       \<and> (\<forall>ts fs M.
            compute_stft signal sampling_rate window_size hop_length window_type = Inr (ts, fs, M)
            \<longrightarrow> shape M = (nat (1 + (int (length signal) - window_size) div hop_length),
                            nat (window_size div 2 + 1))
                \<and> well_shaped M
                \<and> length ts = nat (1 + (int (length signal) - window_size) div hop_length)
                \<and> (\<forall>i < nat (1 + (int (length signal) - window_size) div hop_length).
                      ts ! i = Num (real i * real_of_int hop_length / sampling_rate)))"
proof -
  let ?nw = "1 + (int (length signal) - window_size) div hop_length"
  let ?nc = "window_size div 2 + 1"
  let ?A = "\<lparr>shape = (nat ?nw, nat ?nc),
              rows = replicate (nat ?nw) (replicate (nat ?nc) (CNum 0))\<rparr>"
  have nw: "0 \<le> ?nw" using assms by (simp add: pos_imp_zdiv_nonneg_iff)
  have nc: "0 \<le> ?nc" using assms by simp
  note z = np_zeros_ok[OF nw nc]
  note unf = compute_stft_valid[OF assms(1-3), of signal sampling_rate window_type]
  have total: "\<exists>r. compute_stft signal sampling_rate window_size hop_length window_type = Inr r"
    if rec: "recognized window_type" and sr: "sampling_rate \<noteq> 0"
  proof -
    obtain freqs where f: "np_rfftfreq window_size (1 / sampling_rate) = Inr freqs"
      using np_rfftfreq_ok[OF assms(1) sr] by blast
    have "\<forall>i \<in> set [0..<nat ?nw].
            i < fst (shape ?A) \<and> i * nat hop_length + nat window_size \<le> length signal"
    proof
      fix i assume "i \<in> set [0..<nat ?nw]"
      then have i: "i < nat ?nw" by simp
      from frame_in_range[OF assms(2) assms(4) i]
      have "int i * hop_length + window_size \<le> int (length signal)" .
      moreover have "int (i * nat hop_length + nat window_size) = int i * hop_length + window_size"
        using assms by simp
      ultimately have "i * nat hop_length + nat window_size \<le> length signal" by linarith
      with i show "i < fst (shape ?A) \<and> i * nat hop_length + nat window_size \<le> length signal"
        by simp
    qed
    moreover have "snd (shape ?A) = nat window_size div 2 + 1"
      using assms(1) by (simp add: nat_half_plus_one)
    ultimately obtain B where
      "stft_loop signal window_size hop_length window_type [0..<nat ?nw] ?A = Inr B"
      using stft_loop_total[OF rec assms(1)] by blast
    then show ?thesis using sr f by (simp add: unf z py_truediv_def)
  qed
  have shape_ok: "shape M = (nat ?nw, nat ?nc) \<and> well_shaped M \<and> length ts = nat ?nw
                \<and> (\<forall>i < nat ?nw. ts ! i = Num (real i * real_of_int hop_length / sampling_rate))"
    if ret: "compute_stft signal sampling_rate window_size hop_length window_type = Inr (ts, fs, M)"
    for ts fs M
  proof -
    from ret have sr: "sampling_rate \<noteq> 0"
      by (auto simp: unf z py_truediv_def split: if_splits)
    from ret sr have loop:
      "stft_loop signal window_size hop_length window_type [0..<nat ?nw] ?A = Inr M"
      and ts: "ts = map (\<lambda>i. f_div (f_mul (Num i) (Num (real_of_int hop_length))) (Num sampling_rate))
                      (arange ?nw)"
      by (auto simp: unf z py_truediv_def split: sum.splits)
    from stft_loop_shape[OF loop] np_zeros_well_shaped[of "nat ?nw" "nat ?nc" "CNum 0"]
    have "shape M = (nat ?nw, nat ?nc)" "well_shaped M" by simp_all
    moreover have "length ts = nat ?nw" by (simp add: ts length_arange)
    moreover have "\<forall>i < nat ?nw. ts ! i = Num (real i * real_of_int hop_length / sampling_rate)"
      using sr by (simp add: ts length_arange nth_arange)
    ultimately show ?thesis by simp
  qed
  from total shape_ok show ?thesis by blast
qed

theorem compute_stft_shape_witness:
  "(0::int) < 2 \<and> (0::int) < 1 \<and> (1::int) \<le> 2 \<and> (2::int) \<le> int (length [Num 1, Num 2, Num 3])
   \<and> (\<exists>ts fs M. compute_stft [Num 1, Num 2, Num 3] 2 2 1 ''hanning'' = Inr (ts, fs, M)
         \<and> shape M = (2, 2) \<and> well_shaped M \<and> length ts = 2 \<and> ts ! 1 = Num (1 / 2))"
  using compute_stft_shape[where window_size = 2 and hop_length = 1
      and signal = "[Num 1, Num 2, Num 3]" and window_type = "''hanning''" and sampling_rate = 2]
  by (auto simp: recognized_def)

text \<open>
  C4. Each of the three violations makes \<open>compute_stft\<close> raise a ValueError whose message
  names a violated constraint: the first failing check in the order \<open>window_size \<le> 0\<close>,
  \<open>hop_length \<le> 0\<close>, \<open>hop_length > window_size\<close>. The checks come first: the error is the
  same for every signal, sampling rate and window type, also for those on which a later
  step would raise, and no time stamps, bins or matrix are returned.
\<close>

theorem compute_stft_validation:
  "(window_size \<le> 0 \<longrightarrow>
      compute_stft signal sampling_rate window_size hop_length window_type
        = Inl (ValueError ''window_size must be positive''))
   \<and> (0 < window_size \<and> hop_length \<le> 0 \<longrightarrow>
      compute_stft signal sampling_rate window_size hop_length window_type
        = Inl (ValueError ''hop_length must be positive''))
   \<and> (0 < window_size \<and> 0 < hop_length \<and> window_size < hop_length \<longrightarrow>
      compute_stft signal sampling_rate window_size hop_length window_type
        = Inl (ValueError ''hop_length must be less than or equal to window_size''))
   \<and> (window_size \<le> 0 \<or> hop_length \<le> 0 \<or> window_size < hop_length \<longrightarrow>
      (\<exists>msg. compute_stft signal sampling_rate window_size hop_length window_type
               = Inl (ValueError msg)))"
  by (simp add: compute_stft_def)

theorem compute_stft_validation_witness:
  "compute_stft [Num 1, Num 2] 0 0 1 ''triangular'' = Inl (ValueError ''window_size must be positive'')
   \<and> compute_stft [Num 1, Num 2] 0 2 0 ''triangular'' = Inl (ValueError ''hop_length must be positive'')
   \<and> compute_stft [Num 1, Num 2] 0 2 3 ''triangular''
        = Inl (ValueError ''hop_length must be less than or equal to window_size'')"
  using compute_stft_validation[of 0 "[Num 1, Num 2]" 0 1 "''triangular''"]
    compute_stft_validation[of 2 "[Num 1, Num 2]" 0 0 "''triangular''"]
    compute_stft_validation[of 2 "[Num 1, Num 2]" 0 3 "''triangular''"]
  by simp

text \<open>
  C5, as stated, has \<open>compute_stft\<close> raise an error naming the tag for every unrecognised
  tag. The tag is only looked at inside the frame loop: a signal that holds no frame
  returns an empty matrix, a zero sampling rate raises ZeroDivisionError first, and a
  failed parameter check raises a ValueError that names the parameter, not the tag.
\<close>

theorem unrecognized_tag_zero_frames:
  "\<not> recognized ''triangular''
   \<and> compute_stft [Num 1] 2 2 1 ''triangular''
       = Inr ([], [Num 0, Num 1], \<lparr>shape = (0, 2), rows = []\<rparr>)
   \<and> compute_stft [Num 1, Num 2] 0 2 1 ''triangular'' = Inl ZeroDivisionError
   \<and> compute_stft [Num 1, Num 2] 1 0 1 ''triangular''
       = Inl (ValueError ''window_size must be positive'')"
  by (simp add: recognized_def compute_stft_def np_zeros_def py_truediv_def np_rfftfreq_def
      arange_def upt_conv_Cons)

text \<open>
  C5, amended. For every tag outside the three recognised ones, \<open>apply_window\<close> raises a
  ValueError whose message ends with the tag, and \<open>compute_stft\<close> raises that same error
  whenever the parameters pass validation, \<open>sampling_rate \<noteq> 0\<close> and the signal holds at
  least one frame (\<open>len(signal) \<ge> window_size\<close>).
\<close>

theorem unrecognized_tag_raises:
  assumes "\<not> recognized window_type"
  shows "apply_window xs window_type
           = Inl (ValueError (''Unsupported window type: '' @ window_type))
       \<and> (0 < window_size \<and> 0 < hop_length \<and> hop_length \<le> window_size
            \<and> window_size \<le> int (length signal) \<and> sampling_rate \<noteq> 0 \<longrightarrow>
          compute_stft signal sampling_rate window_size hop_length window_type
            = Inl (ValueError (''Unsupported window type: '' @ window_type)))"
proof -
  have "compute_stft signal sampling_rate window_size hop_length window_type
          = Inl (ValueError (''Unsupported window type: '' @ window_type))"
    if v: "0 < window_size" "0 < hop_length" "hop_length \<le> window_size"
      and len: "window_size \<le> int (length signal)" and sr: "sampling_rate \<noteq> 0"
  proof -
    let ?nw = "1 + (int (length signal) - window_size) div hop_length"
    have "0 \<le> (int (length signal) - window_size) div hop_length"
      using v len by (simp add: pos_imp_zdiv_nonneg_iff)
    then have nw: "0 < ?nw" by linarith
    then have ne: "[0..<nat ?nw] \<noteq> []" by simp
    have z: "0 \<le> ?nw" "0 \<le> window_size div 2 + 1" using nw v by simp_all
    obtain freqs where f: "np_rfftfreq window_size (1 / sampling_rate) = Inr freqs"
      using np_rfftfreq_ok[OF v(1) sr] by blast
    show ?thesis
      using sr f stft_loop_unrecognized[OF assms ne]
      by (simp add: compute_stft_valid[OF v] np_zeros_ok[OF z] py_truediv_def)
  qed
  with apply_window_unrecognized[OF assms] show ?thesis by blast
qed

theorem unrecognized_tag_raises_witness:
  "\<not> recognized ''triangular''
   \<and> apply_window [Num 1, Num 2] ''triangular''
       = Inl (ValueError ''Unsupported window type: triangular'')
   \<and> compute_stft [Num 1, Num 2] 1 2 1 ''triangular''
       = Inl (ValueError ''Unsupported window type: triangular'')"
  using unrecognized_tag_raises[of "''triangular''" "[Num 1, Num 2]" 2 1 "[Num 1, Num 2]" 1]
  by (simp add: recognized_def)

text \<open>
  C9, as stated, has \<open>compute_stft\<close> fail on a short signal only when the frame count is
  negative. With one sample, \<open>window_size = 2\<close> and \<open>hop_length = 1\<close> the frame count is 0,
  and \<open>sampling_rate = 0\<close> still raises ZeroDivisionError at \<open>1 / sampling_rate\<close>.
\<close>

theorem short_signal_zero_rate:
  "compute_stft [Num 1] 0 2 1 ''hamming'' = Inl ZeroDivisionError
   \<and> (2::int) - 1 \<le> int (length [Num 1 :: float64]) \<and> int (length [Num 1 :: float64]) < 2
   \<and> \<not> 1 + (int (length [Num 1 :: float64]) - 2) div 1 < 0"
  by (simp add: compute_stft_def np_zeros_def py_truediv_def)

text \<open>
  C9, amended. For every signal shorter than \<open>window_size\<close>, parameters passing validation
  and \<open>sampling_rate \<noteq> 0\<close>: when \<open>window_size - hop_length \<le> len(signal)\<close>, \<open>compute_stft\<close>
  returns without error a matrix of shape \<open>(0, window_size // 2 + 1)\<close> with no rows and no
  time stamps, whatever the window type, recognised or not; and it fails exactly when the
  frame count \<open>1 + (len(signal) - window_size) // hop_length\<close> is negative, that is when
  \<open>len(signal) < window_size - hop_length\<close>.
\<close>

theorem short_signal_empty_matrix:
  assumes "0 < window_size" and "0 < hop_length" and "hop_length \<le> window_size"
    and "sampling_rate \<noteq> 0" and "int (length signal) < window_size"
  shows "(window_size - hop_length \<le> int (length signal) \<longrightarrow>
            (\<exists>fs. compute_stft signal sampling_rate window_size hop_length window_type
                    = Inr ([], fs, \<lparr>shape = (0, nat (window_size div 2 + 1)), rows = []\<rparr>)
                  \<and> length fs = nat (window_size div 2 + 1)))
       \<and> ((\<exists>e. compute_stft signal sampling_rate window_size hop_length window_type = Inl e)
            \<longleftrightarrow> 1 + (int (length signal) - window_size) div hop_length < 0)
       \<and> (1 + (int (length signal) - window_size) div hop_length < 0 \<longleftrightarrow>
            int (length signal) < window_size - hop_length)"
proof -
  let ?nw = "1 + (int (length signal) - window_size) div hop_length"
  note unf = compute_stft_valid[OF assms(1-3), of signal sampling_rate window_type]
  obtain freqs where f: "np_rfftfreq window_size (1 / sampling_rate) = Inr freqs"
    "length freqs = nat (window_size div 2 + 1)"
    using np_rfftfreq_ok[OF assms(1,4)] by blast
  have neg_iff: "?nw < 0 \<longleftrightarrow> int (length signal) < window_size - hop_length"
  proof -
    have "?nw = (int (length signal) - window_size + hop_length) div hop_length"
      using assms(2) by simp
    then show ?thesis using assms(2) by (simp only: pos_imp_zdiv_neg_iff) linarith
  qed
  have le0: "?nw \<le> 0"
  proof -
    have "(int (length signal) - window_size) div hop_length < 0"
      using assms(2,5) by (simp add: pos_imp_zdiv_neg_iff)
    then show ?thesis by linarith
  qed
  have fails: "compute_stft signal sampling_rate window_size hop_length window_type
                 = Inl (ValueError ''negative dimensions are not allowed'')" if "?nw < 0"
    using that by (simp add: unf np_zeros_def)
  have returns: "compute_stft signal sampling_rate window_size hop_length window_type
                   = Inr ([], freqs, \<lparr>shape = (0, nat (window_size div 2 + 1)), rows = []\<rparr>)"
    if "\<not> ?nw < 0"
  proof -
    from that le0 have "?nw = 0" by linarith
    then show ?thesis
      using f(1) assms(1,4) by (simp add: unf np_zeros_def py_truediv_def arange_def)
  qed
  have "(\<exists>e. compute_stft signal sampling_rate window_size hop_length window_type = Inl e)
          \<longleftrightarrow> ?nw < 0"
    using fails returns by (cases "?nw < 0") auto
  moreover have "window_size - hop_length \<le> int (length signal) \<longrightarrow>
      (\<exists>fs. compute_stft signal sampling_rate window_size hop_length window_type
              = Inr ([], fs, \<lparr>shape = (0, nat (window_size div 2 + 1)), rows = []\<rparr>)
            \<and> length fs = nat (window_size div 2 + 1))"
    using returns neg_iff f(2) by auto
  ultimately show ?thesis using neg_iff by blast
qed

theorem short_signal_empty_matrix_witness:
  "(0::int) < 2 \<and> (0::int) < 1 \<and> (1::int) \<le> 2 \<and> (1::real) \<noteq> 0
   \<and> int (length [Num 1 :: float64]) < 2 \<and> (2::int) - 1 \<le> int (length [Num 1 :: float64])
   \<and> (\<exists>fs. compute_stft [Num 1] 1 2 1 ''triangular''
              = Inr ([], fs, \<lparr>shape = (0, 2), rows = []\<rparr>) \<and> length fs = 2)
   \<and> \<not> (\<exists>e. compute_stft [Num 1] 1 2 1 ''triangular'' = Inl e)"
  using short_signal_empty_matrix[where window_size = 2 and hop_length = 1
      and sampling_rate = 1 and signal = "[Num 1]" and window_type = "''triangular''"]
  by simp

section \<open>Transform engine: the round trip in exact arithmetic\<close>





section \<open>float64 rounding: error, sign and evaluation\<close>

lemma pow2_powr: "pow2 k = 2 powr of_int k"
proof (cases "0 \<le> k")
  case True
  then have "(2::real) powr of_int k = 2 powr real (nat k)" by simp
  also have "\<dots> = 2 ^ nat k" by (simp add: powr_realpow)
  finally show ?thesis using True by (simp add: pow2_def)
next
  case False
  then have "(2::real) powr of_int k = 2 powr (- real (nat (- k)))" by simp
  also have "\<dots> = 1 / 2 ^ nat (- k)" by (simp add: powr_minus powr_realpow divide_inverse)
  finally show ?thesis using False by (simp add: pow2_def)
qed

lemma pow2_pos: "0 < pow2 k"
  by (simp add: pow2_powr)

lemma pow2_nonzero: "pow2 k \<noteq> 0"
  using pow2_pos[of k] by simp

lemma pow2_nonneg: "0 \<le> pow2 k"
  using pow2_pos[of k] by simp

text \<open>A number whose binade is known rounds to a multiple of that binade's unit.\<close>

lemma binade_eqI:
  assumes "pow2 e \<le> \<bar>x\<bar>" "\<bar>x\<bar> < pow2 (e + 1)"
  shows "binade x = e"
proof -
  have "0 < \<bar>x\<bar>" using assms(1) pow2_pos[of e] by linarith
  then show ?thesis
    unfolding binade_def using assms by (simp add: floor_log_eq_powr_iff pow2_powr)
qed

lemma rnd_eqI:
  assumes "pow2 e \<le> \<bar>x\<bar>" "\<bar>x\<bar> < pow2 (e + 1)"
  shows "rnd x = of_int (round_even (x / pow2 (e - 52))) * pow2 (e - 52)"
proof -
  have "0 < \<bar>x\<bar>" using assms(1) pow2_pos[of e] by linarith
  then have "x \<noteq> 0" by simp
  then show ?thesis by (simp add: rnd_def binade_eqI[OF assms])
qed

lemma pow2_add: "pow2 (a + b) = pow2 a * pow2 b"
  by (simp add: pow2_powr powr_add)

lemma pow2_52_half: "pow2 (e - 52) / 2 = pow2 e / 2 ^ 53"
proof -
  have "pow2 (e - 52) = pow2 e * pow2 (- 52)" using pow2_add[of e "- 52"] by simp
  then show ?thesis by (simp add: pow2_def)
qed

lemma binade_bounds:
  assumes "x \<noteq> 0"
  shows "pow2 (binade x) \<le> \<bar>x\<bar>" "\<bar>x\<bar> < pow2 (binade x + 1)"
proof -
  have "0 < \<bar>x\<bar>" using assms by simp
  then have "2 powr of_int (binade x) \<le> \<bar>x\<bar> \<and> \<bar>x\<bar> < 2 powr of_int (binade x + 1)"
    using floor_log_eq_powr_iff[of "\<bar>x\<bar>" 2 "binade x"] by (simp add: binade_def)
  then show "pow2 (binade x) \<le> \<bar>x\<bar>" "\<bar>x\<bar> < pow2 (binade x + 1)"
    by (simp_all add: pow2_powr)
qed

lemma round_even_error: "\<bar>of_int (round_even y) - y\<bar> \<le> 1 / 2"
proof -
  have "of_int \<lfloor>y\<rfloor> \<le> y" "y < of_int \<lfloor>y\<rfloor> + 1" by linarith+
  then show ?thesis by (auto simp: round_even_def Let_def)
qed

text \<open>The relative error of one rounding is at most \<open>2^-53\<close>.\<close>

lemma rnd_error: "\<bar>rnd x - x\<bar> \<le> \<bar>x\<bar> / 2 ^ 53"
proof (cases "x = 0")
  case True
  then show ?thesis by (simp add: rnd_def)
next
  case False
  let ?q = "pow2 (binade x - 52)"
  have q: "0 < ?q" by (rule pow2_pos)
  have "rnd x - x = (of_int (round_even (x / ?q)) - x / ?q) * ?q"
    using False q by (simp add: rnd_def field_simps)
  then have "\<bar>rnd x - x\<bar> = \<bar>of_int (round_even (x / ?q)) - x / ?q\<bar> * ?q"
    using q by (simp add: abs_mult)
  also have "\<dots> \<le> 1 / 2 * ?q"
    using round_even_error[of "x / ?q"] q by (intro mult_right_mono) auto
  also have "\<dots> = pow2 (binade x) / 2 ^ 53" using pow2_52_half[of "binade x"] by simp
  also have "\<dots> \<le> \<bar>x\<bar> / 2 ^ 53"
    using binade_bounds(1)[OF False] by (intro divide_right_mono) auto
  finally show ?thesis .
qed

lemma rnd_error_le:
  assumes "\<bar>x\<bar> \<le> B"
  shows "\<bar>rnd x - x\<bar> \<le> B / 2 ^ 53"
proof -
  have "\<bar>x\<bar> / 2 ^ 53 \<le> B / 2 ^ 53" using assms by (intro divide_right_mono) auto
  with rnd_error[of x] show ?thesis by linarith
qed

lemma round_even_nonpos: "y \<le> 0 \<Longrightarrow> round_even y \<le> 0"
proof -
  assume y: "y \<le> 0"
  then have f: "\<lfloor>y\<rfloor> \<le> 0" by (simp add: floor_le_zero)
  show ?thesis
  proof (cases "\<lfloor>y\<rfloor> = 0")
    case True
    then have "y = 0" using y by linarith
    then show ?thesis by (simp add: round_even_def)
  next
    case False
    with f have "\<lfloor>y\<rfloor> + 1 \<le> 0" by linarith
    then show ?thesis using f by (auto simp: round_even_def Let_def)
  qed
qed

lemma rnd_nonpos: "x \<le> 0 \<Longrightarrow> rnd x \<le> 0"
proof -
  assume x: "x \<le> 0"
  have "x / pow2 (binade x - 52) \<le> 0" using x pow2_pos by (simp add: divide_nonpos_pos)
  then have "of_int (round_even (x / pow2 (binade x - 52))) \<le> (0::real)"
    using round_even_nonpos by simp
  then show ?thesis
    using pow2_nonneg by (simp add: rnd_def mult_nonpos_nonneg)
qed

lemma rnd_0: "rnd 0 = 0"
  by (simp add: rnd_def)

lemma rnd_eq_0_iff: "rnd x = 0 \<longleftrightarrow> x = 0"
proof
  assume r: "rnd x = 0"
  show "x = 0"
  proof (rule ccontr)
    assume "x \<noteq> 0"
    then have "\<bar>x\<bar> / 2 ^ 53 < \<bar>x\<bar>" by (simp add: field_simps)
    with rnd_error[of x] r show False by simp
  qed
next
  assume "x = 0"
  then show "rnd x = 0" by (simp add: rnd_0)
qed

lemma round_even_eqI:
  assumes "of_int m - 1 / 2 < y" "y < of_int m + 1 / 2"
  shows "round_even y = m"
proof -
  have "\<lfloor>y\<rfloor> = m \<or> \<lfloor>y\<rfloor> = m - 1" using assms by linarith
  then show ?thesis
  proof
    assume f: "\<lfloor>y\<rfloor> = m"
    then have "y - of_int \<lfloor>y\<rfloor> < 1 / 2" using assms by simp
    then show ?thesis using f by (simp add: round_even_def)
  next
    assume f: "\<lfloor>y\<rfloor> = m - 1"
    then have "1 / 2 < y - of_int \<lfloor>y\<rfloor>" using assms by simp
    then show ?thesis using f by (simp add: round_even_def)
  qed
qed

lemma rnd_boundsI:
  assumes "pow2 e \<le> \<bar>x\<bar>" "\<bar>x\<bar> < pow2 (e + 1)"
    and "(of_int m - 1 / 2) * pow2 (e - 52) < x" "x < (of_int m + 1 / 2) * pow2 (e - 52)"
  shows "rnd x = of_int m * pow2 (e - 52)"
proof -
  have q: "0 < pow2 (e - 52)" by (rule pow2_pos)
  have "of_int m - 1 / 2 < x / pow2 (e - 52)" "x / pow2 (e - 52) < of_int m + 1 / 2"
    using assms(3,4) q by (simp_all add: field_simps)
  then have "round_even (x / pow2 (e - 52)) = m" by (rule round_even_eqI)
  then show ?thesis using rnd_eqI[OF assms(1,2)] by simp
qed

section \<open>Spectrogram normaliser in float64: the rounded floor\<close>

lemma rnd_01: "rnd (1 / 10) = 3602879701896397 / 36028797018963968"
  by (subst rnd_eqI[where e = "- 4"]) (simp_all add: pow2_def round_even_def)

lemma rnd_10: "rnd 10 = 10"
  by (subst rnd_eqI[where e = 3]) (simp_all add: pow2_def round_even_def)

lemma rnd_100: "rnd 100 = 100"
  by (subst rnd_eqI[where e = 6]) (simp_all add: pow2_def round_even_def)

lemma rnd_2: "rnd 2 = 2"
  by (subst rnd_eqI[where e = 1]) (simp_all add: pow2_def round_even_def)

lemma rnd_20: "rnd 20 = 20"
  by (subst rnd_eqI[where e = 4]) (simp_all add: pow2_def round_even_def)

lemma rnd_floor_01:
  "rnd (20 - 3602879701896397 / 36028797018963968) = 2800676018271027 / 140737488355328"
  by (subst rnd_eqI[where e = 4]) (simp_all add: pow2_def round_even_def)

text \<open>A bin without power is clamped to \<open>eps\<close>, and its level in dB is not positive.\<close>

lemma quiet_bin: "rnd (10 * rnd (log 10 eps)) \<le> 0"
proof -
  have "log 10 eps \<le> 0" by (simp add: eps_def)
  then have "rnd (log 10 eps) \<le> 0" by (rule rnd_nonpos)
  then have "10 * rnd (log 10 eps) \<le> 0" by simp
  then show ?thesis by (rule rnd_nonpos)
qed

text \<open>
  C1. The dynamic range \<open>max(output) - min(output) \<le> db_range\<close> is what the clamp of
  \<open>compute_spectrogram\<close> is for, and what the repository's test of the spectrogram range
  asserts; in float64 the code misses it by the rounding of the floor
  \<open>power_db.max() - db_range\<close>. For the matrix \<open>[[10, 0]]\<close> and \<open>db_range = 0.1\<close> the peak
  is 20.0, the floor is the float64 nearest to \<open>20 - 0.1\<close>, the spectrogram is
  \<open>[[20.0, 19.9]]\<close>, and its maximum minus its minimum is \<open>0.10000000000000142\<close>, above
  the float64 \<open>0.1\<close>. Without rounding the range is never exceeded
  (\<open>spectrogram_dynamic_range_exact\<close>).
\<close>

theorem spectrogram_range_exceeded:
  "compute_spectrogram_f64 [] [] \<lparr>shape = (1, 2), rows = [[10, 0]]\<rparr> (rnd (1 / 10))
     = Inr \<lparr>shape = (1, 2), rows = [[20, 2800676018271027 / 140737488355328]]\<rparr>
   \<and> np_amax \<lparr>shape = (1, 2), rows = [[20, 2800676018271027 / 140737488355328]]\<rparr> = Inr 20
   \<and> np_amin \<lparr>shape = (1, 2), rows = [[20, 2800676018271027 / 140737488355328]]\<rparr>
       = Inr (2800676018271027 / 140737488355328)
   \<and> rnd (1 / 10) < rnd (20 - 2800676018271027 / 140737488355328)"
proof -
  let ?F = "2800676018271027 / 140737488355328 :: real"
  let ?B = "rnd (10 * rnd (log 10 eps))"
  have B: "?B \<le> 0" by (rule quiet_bin)
  have loud: "rnd (10 * rnd (log 10 (max 100 eps))) = 20"
    by (simp add: eps_def log10_100 rnd_2 rnd_20)
  have quiet: "max 0 eps = eps" by (simp add: eps_def)
  have power: "map_array (\<lambda>z. rnd ((rnd (cmod z)) ^ 2)) \<lparr>shape = (1, 2), rows = [[10, 0]]\<rparr>
                 = \<lparr>shape = (1, 2), rows = [[100, 0]]\<rparr>"
    by (simp add: map_array_def rnd_10 rnd_100 rnd_0)
  have power_db: "map_array (\<lambda>p. rnd (10 * rnd (log 10 (max p eps))))
                    \<lparr>shape = (1, 2), rows = [[100, 0]]\<rparr>
                 = \<lparr>shape = (1, 2), rows = [[20, ?B]]\<rparr>"
    by (simp add: map_array_def loud quiet)
  have pmax: "np_amax \<lparr>shape = (1, 2), rows = [[100, 0]]\<rparr> = Inr 100"
    by (simp add: np_amax_def elements_def)
  have peak: "np_amax \<lparr>shape = (1, 2), rows = [[20, ?B]]\<rparr> = Inr 20"
    using B by (simp add: np_amax_def elements_def)
  have floor: "rnd (20 - rnd (1 / 10)) = ?F" unfolding rnd_01 by (rule rnd_floor_01)
  have out: "map_array (\<lambda>x. max x ?F) \<lparr>shape = (1, 2), rows = [[20, ?B]]\<rparr>
               = \<lparr>shape = (1, 2), rows = [[20, ?F]]\<rparr>"
    using B by (simp add: map_array_def)
  have run: "compute_spectrogram_f64 [] [] \<lparr>shape = (1, 2), rows = [[10, 0]]\<rparr> (rnd (1 / 10))
               = Inr \<lparr>shape = (1, 2), rows = [[20, ?F]]\<rparr>"
    unfolding compute_spectrogram_f64_def Let_def power pmax power_db peak
    by (simp only: sum.case floor out)
  have mx: "np_amax \<lparr>shape = (1, 2), rows = [[20, ?F]]\<rparr> = Inr 20"
    by (simp add: np_amax_def elements_def)
  have mn: "np_amin \<lparr>shape = (1, 2), rows = [[20, ?F]]\<rparr> = Inr ?F"
    by (simp add: np_amin_def elements_def)
  have "rnd (20 - ?F) = 14073748835533 / 140737488355328"
    by (subst rnd_eqI[where e = "- 4"]) (simp_all add: pow2_def round_even_def)
  then have spread: "rnd (1 / 10) < rnd (20 - ?F)" by (simp add: rnd_01)
  from run mx mn spread show ?thesis by simp
qed

section \<open>Transform engine on two samples in float64: the round trip\<close>












section \<open>Window generators in float64: the value of \<open>pi\<close> and the cosines near a third of a turn\<close>

text \<open>Twenty digits of \<open>pi\<close>, from Machin's formula and the alternating series of the arctangent.\<close>

lemma arctan_sum_bounds:
  assumes "0 < x" "x \<le> 1"
  shows "arctan_sum x (2 * n) \<le> arctan x" "arctan x \<le> arctan_sum x (2 * n + 1)"
proof -
  have ax: "\<bar>x\<bar> \<le> 1" using assms by simp
  have a0: "0 < 1 / real (0 * 2 + 1) * x ^ (0 * 2 + 1)" using assms by simp
  from summable_Leibniz(2)[OF zeroseq_arctan_series[OF ax] monoseq_arctan_series[OF ax]] a0
  have "(\<Sum>i. (- 1) ^ i * (1 / real (i * 2 + 1) * x ^ (i * 2 + 1)))
          \<in> {arctan_sum x (2 * n) .. arctan_sum x (2 * n + 1)}"
    unfolding arctan_sum_def by blast
  then show "arctan_sum x (2 * n) \<le> arctan x" "arctan x \<le> arctan_sum x (2 * n + 1)"
    using arctan_series[OF ax] by simp_all
qed

lemma arctan_sum_Suc:
  "arctan_sum x (Suc n) = arctan_sum x n + (- 1) ^ n * (1 / real (n * 2 + 1) * x ^ (n * 2 + 1))"
  by (simp add: arctan_sum_def)

lemma arctan_sum_0: "arctan_sum x 0 = 0"
  by (simp add: arctan_sum_def)

lemma pi_bounds: "3.1415926535897932384 < pi" "pi < 3.1415926535897932385"
proof -
  have m: "pi = 16 * arctan (1 / 5) - 4 * arctan (1 / 239)" using machin by simp
  have l5: "arctan_sum (1 / 5) 14 \<le> arctan (1 / 5)"
    using arctan_sum_bounds(1)[of "1 / 5" 7] by simp
  have u5: "arctan (1 / 5) \<le> arctan_sum (1 / 5) 15"
    using arctan_sum_bounds(2)[of "1 / 5" 7] by simp
  have l239: "arctan_sum (1 / 239) 4 \<le> arctan (1 / 239)"
    using arctan_sum_bounds(1)[of "1 / 239" 2] by simp
  have u239: "arctan (1 / 239) \<le> arctan_sum (1 / 239) 5"
    using arctan_sum_bounds(2)[of "1 / 239" 2] by simp
  have "3.1415926535897932384 < 16 * arctan_sum (1 / 5) 14 - 4 * arctan_sum (1 / 239) 5"
    by (simp add: eval_nat_numeral arctan_sum_Suc arctan_sum_0)
  then show "3.1415926535897932384 < pi" using m l5 u239 by linarith
  have "16 * arctan_sum (1 / 5) 15 - 4 * arctan_sum (1 / 239) 4 < 3.1415926535897932385"
    by (simp add: eval_nat_numeral arctan_sum_Suc arctan_sum_0)
  then show "pi < 3.1415926535897932385" using m u5 l239 by linarith
qed

lemma np_pi_val: "np_pi = 884279719003555 / 281474976710656"
proof -
  have "rnd pi = of_int 7074237752028440 * pow2 (1 - 52)"
    using pi_bounds by (intro rnd_boundsI) (simp_all add: pow2_def)
  then show ?thesis by (simp add: np_pi_def pow2_def)
qed


text \<open>Bounds of the sine and the cosine of a small angle, and of the square root of 3.\<close>

lemma sqrt3_bounds: "1732 / 1000 < sqrt 3" "sqrt 3 < 17321 / 10000"
  by (rule real_less_rsqrt, simp add: power2_eq_square) (rule real_less_lsqrt, simp_all add: power2_eq_square)

lemma sin_lower:
  assumes "0 < (t::real)"
  shows "t - t ^ 3 / 6 \<le> sin t"
proof -
  from Maclaurin_sin_expansion3[of 3 t] assms obtain s where
    s: "sin t = (\<Sum>m<3. sin_coeff m * t ^ m) + sin (s + 1 / 2 * real 3 * pi) / fact 3 * t ^ 3"
    by auto
  have c: "(\<Sum>m<3. sin_coeff m * t ^ m) = t"
    by (simp add: sin_coeff_def numeral_3_eq_3)
  have f: "fact 3 = (6::real)" by (simp add: fact_numeral)
  have "- 1 \<le> sin (s + 1 / 2 * real 3 * pi)" by (rule sin_ge_minus_one)
  then have "(- 1) * t ^ 3 \<le> sin (s + 1 / 2 * real 3 * pi) * t ^ 3"
    using assms by (intro mult_right_mono) simp_all
  then have "- (t ^ 3 / 6) \<le> sin (s + 1 / 2 * real 3 * pi) / 6 * t ^ 3"
    by simp
  then show ?thesis using s c f by simp
qed

lemma cos_lower: "1 - t\<^sup>2 / 2 \<le> cos (t::real)"
proof -
  have "cos t = 1 - 2 * (sin (t / 2))\<^sup>2" using cos_double_sin[of "t / 2"] by simp
  moreover have "(sin (t / 2))\<^sup>2 \<le> (t / 2)\<^sup>2"
    using abs_sin_x_le_abs_x[of "t / 2"] by (simp only: abs_le_square_iff)
  ultimately show ?thesis by (simp add: power2_eq_square)
qed

text \<open>The rounded angle of index 1 in a window of four samples, a little below \<open>2 * pi / 3\<close>.\<close>

lemma third_turn_gap:
  "2296 / 10 ^ 19 < 2 * pi / 3 - 4716158501352293 / 2251799813685248"
  "2 * pi / 3 - 4716158501352293 / 2251799813685248 < 2297 / 10 ^ 19"
  using pi_bounds by simp_all

lemma cos_third_turn:
  "1988 / 10 ^ 19 \<le> cos (4716158501352293 / 2251799813685248 :: real) + 1 / 2"
  "cos (4716158501352293 / 2251799813685248 :: real) + 1 / 2 \<le> 1990 / 10 ^ 19"
proof -
  define t :: real where "t = 2 * pi / 3 - 4716158501352293 / 2251799813685248"
  have t: "2296 / 10 ^ 19 < t" "t < 2297 / 10 ^ 19"
    unfolding t_def by (rule third_turn_gap)+
  have q: "4716158501352293 / 2251799813685248 = 2 * pi / 3 - t" by (simp add: t_def)
  have c: "cos (4716158501352293 / 2251799813685248 :: real) + 1 / 2
           = (1 - cos t) / 2 + sqrt 3 / 2 * sin t"
    unfolding q cos_diff cos_120 sin_120 by (simp add: field_simps)
  have t0: "0 < t" using t(1) by simp
  have s_hi: "sin t \<le> t" using sin_x_le_x[of t] t0 by simp
  have "t ^ 3 / 6 \<le> t / 10 ^ 30"
  proof -
    have "t * t \<le> (2297 / 10 ^ 19) * (2297 / 10 ^ 19)"
      using t t0 by (intro mult_mono) simp_all
    then have "t * t \<le> 6 / 10 ^ 30" by simp
    then have "t * (t * t) \<le> t * (6 / 10 ^ 30)" using t0 by (intro mult_left_mono) simp_all
    then show ?thesis by (simp add: power3_eq_cube field_simps)
  qed
  then have s_lo: "t - t / 10 ^ 30 \<le> sin t" using sin_lower[OF t0] by linarith
  have s0: "0 \<le> sin t" using s_lo t0 by (simp add: field_simps)
  have c_hi: "cos t \<le> 1" by simp
  have c_lo: "1 - cos t \<le> 1 / 10 ^ 30"
  proof -
    have "t * t \<le> (2297 / 10 ^ 19) * (2297 / 10 ^ 19)"
      using t t0 by (intro mult_mono) simp_all
    then have "t\<^sup>2 / 2 \<le> 1 / 10 ^ 30" by (simp add: power2_eq_square)
    then show ?thesis using cos_lower[of t] by linarith
  qed
  have "1732 / 1000 / 2 * (22959 / 10 ^ 20) \<le> sqrt 3 / 2 * sin t"
  proof (intro mult_mono)
    show "1732 / 1000 / 2 \<le> sqrt 3 / 2" using sqrt3_bounds(1) by simp
    show "22959 / 10 ^ 20 \<le> sin t" using s_lo t by (simp add: field_simps)
  qed simp_all
  moreover have "(1988::real) / 10 ^ 19 \<le> 1732 / 1000 / 2 * (22959 / 10 ^ 20)" by simp
  ultimately have "1988 / 10 ^ 19 \<le> sqrt 3 / 2 * sin t" by (rule order_trans[rotated])
  moreover have "0 \<le> (1 - cos t) / 2" using c_hi by simp
  ultimately have "0 + 1988 / 10 ^ 19 \<le> (1 - cos t) / 2 + sqrt 3 / 2 * sin t"
    by (intro add_mono)
  then show "1988 / 10 ^ 19 \<le> cos (4716158501352293 / 2251799813685248 :: real) + 1 / 2"
    unfolding c by simp
  have "sqrt 3 / 2 * sin t \<le> 17321 / 10000 / 2 * (2297 / 10 ^ 19)"
  proof (intro mult_mono)
    show "sqrt 3 / 2 \<le> 17321 / 10000 / 2" using sqrt3_bounds(2) by simp
    show "sin t \<le> 2297 / 10 ^ 19" using s_hi t by simp
  qed (use s0 in simp_all)
  moreover have "17321 / 10000 / 2 * (2297 / 10 ^ 19) \<le> (1989 / 10 ^ 19 + 4 / 10 ^ 20 :: real)" by simp
  ultimately have "sqrt 3 / 2 * sin t \<le> 1989 / 10 ^ 19 + 4 / 10 ^ 20" by (rule order_trans)
  moreover have "(1 - cos t) / 2 \<le> 1 / 10 ^ 30 / 2" using c_lo by simp
  ultimately have "(1 - cos t) / 2 + sqrt 3 / 2 * sin t
      \<le> 1 / 10 ^ 30 / 2 + (1989 / 10 ^ 19 + 4 / 10 ^ 20)"
    by (intro add_mono)
  moreover have "1 / 10 ^ 30 / 2 + (1989 / 10 ^ 19 + 4 / 10 ^ 20) \<le> (1990 / 10 ^ 19 :: real)"
    by simp
  ultimately have "(1 - cos t) / 2 + sqrt 3 / 2 * sin t \<le> 1990 / 10 ^ 19"
    by (rule order_trans)
  then show "cos (4716158501352293 / 2251799813685248 :: real) + 1 / 2 \<le> 1990 / 10 ^ 19"
    unfolding c .
qed

lemma cos_two_thirds_turn:
  "- (3980 / 10 ^ 19) \<le> cos (4716158501352293 / 1125899906842624 :: real) + 1 / 2"
  "cos (4716158501352293 / 1125899906842624 :: real) + 1 / 2 \<le> - (3975 / 10 ^ 19)"
proof -
  define e :: real where "e = cos (4716158501352293 / 2251799813685248) + 1 / 2"
  have e: "1988 / 10 ^ 19 \<le> e" "e \<le> 1990 / 10 ^ 19"
    unfolding e_def by (rule cos_third_turn)+
  have "cos (4716158501352293 / 1125899906842624 :: real)
        = cos (2 * (4716158501352293 / 2251799813685248))" by simp
  also have "\<dots> = 2 * (e - 1 / 2)\<^sup>2 - 1" unfolding cos_double_cos by (simp add: e_def)
  also have "\<dots> = - (1 / 2) - 2 * e + 2 * (e * e)" by (simp add: power2_eq_square algebra_simps)
  finally have c: "cos (4716158501352293 / 1125899906842624 :: real) + 1 / 2
                   = - (2 * e) + 2 * (e * e)" by simp
  define q where "q = e * e"
  have s0: "0 \<le> q" by (simp add: q_def)
  have "e * e \<le> (1990 / 10 ^ 19) * (1990 / 10 ^ 19)" using e by (intro mult_mono) simp_all
  then have s1: "q \<le> 1 / 10 ^ 30" by (simp add: q_def)
  note c = c[folded q_def]
  show "- (3980 / 10 ^ 19) \<le> cos (4716158501352293 / 1125899906842624 :: real) + 1 / 2"
    unfolding c using e s0 s1 by simp
  show "cos (4716158501352293 / 1125899906842624 :: real) + 1 / 2 \<le> - (3975 / 10 ^ 19)"
    unfolding c using e s0 s1 by simp
qed

lemma cos_four_thirds_turn:
  "7950 / 10 ^ 19 \<le> cos (4716158501352293 / 562949953421312 :: real) + 1 / 2"
  "cos (4716158501352293 / 562949953421312 :: real) + 1 / 2 \<le> 7961 / 10 ^ 19"
proof -
  define d :: real where "d = - (cos (4716158501352293 / 1125899906842624) + 1 / 2)"
  have d: "3975 / 10 ^ 19 \<le> d" "d \<le> 3980 / 10 ^ 19"
    unfolding d_def using cos_two_thirds_turn by simp_all
  have "cos (4716158501352293 / 562949953421312 :: real)
        = cos (2 * (4716158501352293 / 1125899906842624))" by simp
  also have "\<dots> = 2 * (- d - 1 / 2)\<^sup>2 - 1" unfolding cos_double_cos by (simp add: d_def)
  also have "\<dots> = - (1 / 2) + 2 * d + 2 * (d * d)" by (simp add: power2_eq_square algebra_simps)
  finally have c: "cos (4716158501352293 / 562949953421312 :: real) + 1 / 2
                   = 2 * d + 2 * (d * d)" by simp
  define q where "q = d * d"
  have s0: "0 \<le> q" by (simp add: q_def)
  have "d * d \<le> (3980 / 10 ^ 19) * (3980 / 10 ^ 19)" using d by (intro mult_mono) simp_all
  then have s1: "q \<le> 1 / 10 ^ 30" by (simp add: q_def)
  note c = c[folded q_def]
  show "7950 / 10 ^ 19 \<le> cos (4716158501352293 / 562949953421312 :: real) + 1 / 2"
    unfolding c using d s0 s1 by simp
  show "cos (4716158501352293 / 562949953421312 :: real) + 1 / 2 \<le> 7961 / 10 ^ 19"
    unfolding c using d s0 s1 by simp
qed

lemma cos_f64_third:
  "rnd (cos (4716158501352293 / 2251799813685248)) = - (2251799813685247 / 4503599627370496)"
proof -
  have "rnd (cos (4716158501352293 / 2251799813685248))
        = of_int (- 9007199254740988) * pow2 (- 2 - 52)"
    using cos_third_turn by (intro rnd_boundsI) (simp_all add: pow2_def abs_if)
  then show ?thesis by (simp add: pow2_def)
qed

lemma cos_f64_two_thirds:
  "rnd (cos (4716158501352293 / 1125899906842624)) = - (1125899906842625 / 2251799813685248)"
proof -
  have "rnd (cos (4716158501352293 / 1125899906842624))
        = of_int (- 4503599627370500) * pow2 (- 1 - 52)"
    using cos_two_thirds_turn by (intro rnd_boundsI) (simp_all add: pow2_def abs_if)
  then show ?thesis by (simp add: pow2_def)
qed

lemma cos_f64_four_thirds:
  "rnd (cos (4716158501352293 / 562949953421312)) = - (4503599627370489 / 9007199254740992)"
proof -
  have "rnd (cos (4716158501352293 / 562949953421312))
        = of_int (- 9007199254740978) * pow2 (- 2 - 52)"
    using cos_four_thirds_turn by (intro rnd_boundsI) (simp_all add: pow2_def abs_if)
  then show ?thesis by (simp add: pow2_def)
qed

section \<open>Window generators in float64: four samples\<close>

lemma window_f64_length:
  "length (hamming_window_f64 N) = nat N"
  "length (hanning_window_f64 N) = nat N"
  "length (blackman_window_f64 N) = nat N"
  by (simp_all add: hamming_window_f64_def hanning_window_f64_def blackman_window_f64_def
      length_arange)

lemma hamming_window_f64_nth:
  assumes "2 \<le> N" "n < nat N"
  shows "hamming_window_f64 N ! n =
           Num (rnd (rnd 0.54 - rnd (rnd 0.46 *
             rnd (cos (rnd (rnd (rnd (2 * np_pi) * rnd (real n)) / rnd (real_of_int (N - 1))))))))"
  using assms
  by (simp add: hamming_window_f64_def nth_arange length_arange f_sub_def fl_def rnd_eq_0_iff f64_of_def f64_add_def f64_sub_def
      f64_mul_def f64_div_def f64_cos_def)

lemma hanning_window_f64_nth:
  assumes "2 \<le> N" "n < nat N"
  shows "hanning_window_f64 N ! n =
           Num (rnd (rnd 0.5 * rnd (rnd 1 -
             rnd (cos (rnd (rnd (rnd (2 * np_pi) * rnd (real n)) / rnd (real_of_int (N - 1))))))))"
  using assms
  by (simp add: hanning_window_f64_def nth_arange length_arange f_sub_def fl_def rnd_eq_0_iff f64_of_def f64_add_def f64_sub_def
      f64_mul_def f64_div_def f64_cos_def)

lemma blackman_window_f64_nth:
  assumes "2 \<le> N" "n < nat N"
  shows "blackman_window_f64 N ! n =
           Num (rnd (rnd (rnd 0.42 - rnd (rnd 0.5 *
               rnd (cos (rnd (rnd (rnd (2 * np_pi) * rnd (real n)) / rnd (real_of_int (N - 1)))))))
             + rnd (rnd 0.08 *
               rnd (cos (rnd (rnd (rnd (4 * np_pi) * rnd (real n)) / rnd (real_of_int (N - 1))))))))"
  using assms
  by (simp add: blackman_window_f64_def nth_arange length_arange f_sub_def fl_def rnd_eq_0_iff f64_of_def f64_add_def f64_sub_def
      f64_mul_def f64_div_def f64_cos_def)

lemma rnd_1: "rnd 1 = 1"
  by (subst rnd_eqI[where e = 0]) (simp_all add: pow2_def round_even_def)

lemma rnd_3: "rnd 3 = 3"
  by (subst rnd_eqI[where e = 1]) (simp_all add: pow2_def round_even_def)

lemma rnd_two_pi: "rnd (884279719003555 / 140737488355328) = 884279719003555 / 140737488355328"
  by (subst rnd_eqI[where e = 2]) (simp_all add: pow2_def round_even_def)

lemma rnd_four_pi: "rnd (884279719003555 / 70368744177664) = 884279719003555 / 70368744177664"
  by (subst rnd_eqI[where e = 3]) (simp_all add: pow2_def round_even_def)

lemma rnd_eight_pi: "rnd (884279719003555 / 35184372088832) = 884279719003555 / 35184372088832"
  by (subst rnd_eqI[where e = 4]) (simp_all add: pow2_def round_even_def)

lemma rnd_angle_1: "rnd (884279719003555 / 422212465065984) = 4716158501352293 / 2251799813685248"
  by (subst rnd_eqI[where e = 1]) (simp_all add: pow2_def round_even_def)

lemma rnd_angle_2: "rnd (884279719003555 / 211106232532992) = 4716158501352293 / 1125899906842624"
  by (subst rnd_eqI[where e = 2]) (simp_all add: pow2_def round_even_def)

lemma rnd_angle_4: "rnd (884279719003555 / 105553116266496) = 4716158501352293 / 562949953421312"
  by (subst rnd_eqI[where e = 3]) (simp_all add: pow2_def round_even_def)

lemma rnd_054: "rnd (27 / 50) = 607985949695017 / 1125899906842624"
  by (subst rnd_eqI[where e = "- 1"]) (simp_all add: pow2_def round_even_def)

lemma rnd_046: "rnd (23 / 50) = 8286623314361713 / 18014398509481984"
  by (subst rnd_eqI[where e = "- 2"]) (simp_all add: pow2_def round_even_def)

lemma rnd_042: "rnd (21 / 50) = 7566047373982433 / 18014398509481984"
  by (subst rnd_eqI[where e = "- 2"]) (simp_all add: pow2_def round_even_def)

lemma rnd_008: "rnd (2 / 25) = 5764607523034235 / 72057594037927936"
  by (subst rnd_eqI[where e = "- 4"]) (simp_all add: pow2_def round_even_def)

lemma rnd_05: "rnd (1 / 2) = 1 / 2"
  by (subst rnd_eqI[where e = "- 1"]) (simp_all add: pow2_def round_even_def)

lemma hamming_prod_1: "rnd (- (18659816835359529314056089748111 / 81129638414606681695789005144064)) = - (8286623314361709 / 36028797018963968)"
  by (subst rnd_eqI[where e = "- 3"]) (simp_all add: pow2_def round_even_def)

lemma hamming_diff_1: "rnd (27742173704602253 / 36028797018963968) = 6935543426150563 / 9007199254740992"
  by (subst rnd_eqI[where e = "- 1"]) (simp_all add: pow2_def round_even_def)

lemma hamming_prod_2: "rnd (- (9329908417679777086963016416625 / 40564819207303340847894502572032)) = - (1035827914295215 / 4503599627370496)"
  by (subst rnd_eqI[where e = "- 3"]) (simp_all add: pow2_def round_even_def)

lemma hamming_diff_2: "rnd (3467771713075283 / 4503599627370496) = 3467771713075283 / 4503599627370496"
  by (subst rnd_eqI[where e = "- 1"]) (simp_all add: pow2_def round_even_def)

lemma hanning_diff_1: "rnd (6755399441055743 / 4503599627370496) = 6755399441055743 / 4503599627370496"
  by (subst rnd_eqI[where e = 0]) (simp_all add: pow2_def round_even_def)

lemma hanning_prod_1: "rnd (6755399441055743 / 9007199254740992) = 6755399441055743 / 9007199254740992"
  by (subst rnd_eqI[where e = "- 1"]) (simp_all add: pow2_def round_even_def)

lemma hanning_diff_2: "rnd (3377699720527873 / 2251799813685248) = 3377699720527873 / 2251799813685248"
  by (subst rnd_eqI[where e = 0]) (simp_all add: pow2_def round_even_def)

lemma hanning_prod_2: "rnd (3377699720527873 / 4503599627370496) = 3377699720527873 / 4503599627370496"
  by (subst rnd_eqI[where e = "- 1"]) (simp_all add: pow2_def round_even_def)

lemma blackman_half_1: "rnd (- (2251799813685247 / 9007199254740992)) = - (2251799813685247 / 9007199254740992)"
  by (subst rnd_eqI[where e = "- 3"]) (simp_all add: pow2_def round_even_def)

lemma blackman_diff_1: "rnd (12069647001352927 / 18014398509481984) = 377176468792279 / 562949953421312"
  by (subst rnd_eqI[where e = "- 1"]) (simp_all add: pow2_def round_even_def)

lemma blackman_prod_1: "rnd (- (6490371073168540435378632266875 / 162259276829213363391578010288128)) = - (45035996273705 / 1125899906842624)"
  by (subst rnd_eqI[where e = "- 5"]) (simp_all add: pow2_def round_even_def)

lemma blackman_sum_1: "rnd (709316941310853 / 1125899906842624) = 709316941310853 / 1125899906842624"
  by (subst rnd_eqI[where e = "- 1"]) (simp_all add: pow2_def round_even_def)

lemma blackman_half_2: "rnd (- (1125899906842625 / 4503599627370496)) = - (1125899906842625 / 4503599627370496)"
  by (subst rnd_eqI[where e = "- 2"]) (simp_all add: pow2_def round_even_def)

lemma blackman_diff_2: "rnd (12069647001352933 / 18014398509481984) = 3017411750338233 / 4503599627370496"
  by (subst rnd_eqI[where e = "- 1"]) (simp_all add: pow2_def round_even_def)

lemma blackman_prod_2: "rnd (- (25961484292674098330831775690915 / 649037107316853453566312041152512)) = - (2882303761517113 / 72057594037927936)"
  by (subst rnd_eqI[where e = "- 5"]) (simp_all add: pow2_def round_even_def)

lemma blackman_sum_2: "rnd (45396284243894615 / 72057594037927936) = 5674535530486827 / 9007199254740992"
  by (subst rnd_eqI[where e = "- 1"]) (simp_all add: pow2_def round_even_def)

lemma rnd_two_np_pi: "rnd (2 * np_pi) = 884279719003555 / 140737488355328"
  by (simp add: np_pi_val rnd_two_pi)

lemma rnd_four_np_pi: "rnd (4 * np_pi) = 884279719003555 / 70368744177664"
  by (simp add: np_pi_val rnd_four_pi)

lemma hamming_window_f64_4:
  "hamming_window_f64 4 ! 1 = Num (6935543426150563 / 9007199254740992)"
  "hamming_window_f64 4 ! 2 = Num (3467771713075283 / 4503599627370496)"
  using hamming_window_f64_nth[of 4 1] hamming_window_f64_nth[of 4 2]
  by (simp_all add: rnd_two_np_pi rnd_1 rnd_2 rnd_3 rnd_two_pi rnd_four_pi rnd_angle_1
      rnd_angle_2 cos_f64_third cos_f64_two_thirds rnd_054 rnd_046 hamming_prod_1 hamming_diff_1
      hamming_prod_2 hamming_diff_2)

lemma hanning_window_f64_4:
  "hanning_window_f64 4 ! 1 = Num (6755399441055743 / 9007199254740992)"
  "hanning_window_f64 4 ! 2 = Num (3377699720527873 / 4503599627370496)"
  using hanning_window_f64_nth[of 4 1] hanning_window_f64_nth[of 4 2]
  by (simp_all add: rnd_two_np_pi rnd_1 rnd_2 rnd_3 rnd_two_pi rnd_four_pi rnd_angle_1
      rnd_angle_2 cos_f64_third cos_f64_two_thirds rnd_05 hanning_prod_1 hanning_diff_1
      hanning_prod_2 hanning_diff_2)

lemma blackman_window_f64_4:
  "blackman_window_f64 4 ! 1 = Num (709316941310853 / 1125899906842624)"
  "blackman_window_f64 4 ! 2 = Num (5674535530486827 / 9007199254740992)"
  using blackman_window_f64_nth[of 4 1] blackman_window_f64_nth[of 4 2]
  by (simp_all add: rnd_two_np_pi rnd_four_np_pi rnd_1 rnd_2 rnd_3 rnd_two_pi rnd_four_pi
      rnd_eight_pi rnd_angle_1 rnd_angle_2 rnd_angle_4 cos_f64_third cos_f64_two_thirds
      cos_f64_four_thirds rnd_05 rnd_042 rnd_008 blackman_half_1 blackman_diff_1 blackman_prod_1
      blackman_sum_1 blackman_half_2 blackman_diff_2 blackman_prod_2 blackman_sum_2)


text \<open>
  C7, as stated, is an equality of the two weights. In float64 it fails for each family at
  \<open>N = 4\<close>, between index 1 and its mirror 2: the rounded angle of index 1 lies a little
  below \<open>2 * pi / 3\<close> and the angle of index 2 is twice it, so the two cosines round to
  different sides of \<open>-1/2\<close>. The weights are \<open>0.7699999999999999\<close> and
  \<open>0.7700000000000002\<close> (Hamming), \<open>0.7499999999999999\<close> and \<open>0.7500000000000002\<close>
  (Hanning), \<open>0.6299999999999999\<close> and \<open>0.6300000000000002\<close> (Blackman).
\<close>

theorem window_f64_not_symmetric:
  "hamming_window_f64 4 ! 1 = Num (6935543426150563 / 9007199254740992)
   \<and> hamming_window_f64 4 ! (nat 4 - 1 - 1) = Num (3467771713075283 / 4503599627370496)
   \<and> hanning_window_f64 4 ! 1 = Num (6755399441055743 / 9007199254740992)
   \<and> hanning_window_f64 4 ! (nat 4 - 1 - 1) = Num (3377699720527873 / 4503599627370496)
   \<and> blackman_window_f64 4 ! 1 = Num (709316941310853 / 1125899906842624)
   \<and> blackman_window_f64 4 ! (nat 4 - 1 - 1) = Num (5674535530486827 / 9007199254740992)
   \<and> hamming_window_f64 4 ! 1 \<noteq> hamming_window_f64 4 ! (nat 4 - 1 - 1)
   \<and> hanning_window_f64 4 ! 1 \<noteq> hanning_window_f64 4 ! (nat 4 - 1 - 1)
   \<and> blackman_window_f64 4 ! 1 \<noteq> blackman_window_f64 4 ! (nat 4 - 1 - 1)"
proof -
  have i: "nat 4 - 1 - 1 = (2::nat)" by simp
  show ?thesis
    unfolding i hamming_window_f64_4 hanning_window_f64_4 blackman_window_f64_4 by simp
qed

section \<open>Window generators in float64: symmetry within rounding\<close>

text \<open>
  How a relative error passes through a rounding, a product and a quotient, and an absolute
  error through a rounding, a product with a constant, a difference and a sum.
\<close>

lemma rel_rnd:
  assumes "\<bar>a - x\<bar> \<le> r * \<bar>x\<bar>" "0 \<le> r" "r + (1 + r) / 2 ^ 53 \<le> r'"
  shows "\<bar>rnd a - x\<bar> \<le> r' * \<bar>x\<bar>"
proof -
  have "\<bar>a\<bar> \<le> \<bar>x\<bar> + r * \<bar>x\<bar>" using assms(1) by linarith
  then have "\<bar>a\<bar> \<le> (1 + r) * \<bar>x\<bar>" by (simp add: algebra_simps)
  from rnd_error_le[OF this] have "\<bar>rnd a - a\<bar> \<le> (1 + r) * \<bar>x\<bar> / 2 ^ 53" .
  then have "\<bar>rnd a - x\<bar> \<le> r * \<bar>x\<bar> + (1 + r) * \<bar>x\<bar> / 2 ^ 53"
    using assms(1) by linarith
  also have "\<dots> = (r + (1 + r) / 2 ^ 53) * \<bar>x\<bar>" by (simp add: algebra_simps)
  also have "\<dots> \<le> r' * \<bar>x\<bar>" using assms(3) by (intro mult_right_mono) simp_all
  finally show ?thesis .
qed

lemma rel_mul:
  fixes a b x y :: real
  assumes "\<bar>a - x\<bar> \<le> r * \<bar>x\<bar>" "\<bar>b - y\<bar> \<le> s * \<bar>y\<bar>" "0 \<le> r" "0 \<le> s"
    and "r + s + r * s \<le> t"
  shows "\<bar>a * b - x * y\<bar> \<le> t * \<bar>x * y\<bar>"
proof -
  have "\<bar>a\<bar> \<le> \<bar>x\<bar> + r * \<bar>x\<bar>" using assms(1) by linarith
  then have a: "\<bar>a\<bar> \<le> (1 + r) * \<bar>x\<bar>" by (simp add: algebra_simps)
  have "a * b - x * y = (a - x) * y + a * (b - y)" by (simp add: algebra_simps)
  then have "\<bar>a * b - x * y\<bar> \<le> \<bar>a - x\<bar> * \<bar>y\<bar> + \<bar>a\<bar> * \<bar>b - y\<bar>"
    using abs_triangle_ineq[of "(a - x) * y" "a * (b - y)"] by (simp add: abs_mult)
  also have "\<dots> \<le> (r * \<bar>x\<bar>) * \<bar>y\<bar> + ((1 + r) * \<bar>x\<bar>) * (s * \<bar>y\<bar>)"
    using assms a by (intro add_mono mult_mono) simp_all
  also have "\<dots> = (r + s + r * s) * \<bar>x * y\<bar>" by (simp add: abs_mult algebra_simps)
  also have "\<dots> \<le> t * \<bar>x * y\<bar>" using assms(5) by (intro mult_right_mono) simp_all
  finally show ?thesis .
qed

lemma rel_div:
  fixes a b x y :: real
  assumes "\<bar>a - x\<bar> \<le> r * \<bar>x\<bar>" "\<bar>b - y\<bar> \<le> s * \<bar>y\<bar>" "0 \<le> r" "0 \<le> s" "s < 1"
    and "y \<noteq> 0" and "r + s \<le> t * (1 - s)"
  shows "\<bar>a / b - x / y\<bar> \<le> t * \<bar>x / y\<bar>"
proof -
  have y: "0 < \<bar>y\<bar>" using assms(6) by simp
  have "\<bar>y\<bar> - s * \<bar>y\<bar> \<le> \<bar>b\<bar>" using assms(2) by linarith
  then have b: "(1 - s) * \<bar>y\<bar> \<le> \<bar>b\<bar>" by (simp add: algebra_simps)
  have bp: "0 < (1 - s) * \<bar>y\<bar>" using assms(5) y by simp
  then have b0: "0 < \<bar>b\<bar>" using b by linarith
  then have bn: "b \<noteq> 0" by auto
  have t0: "0 \<le> t"
  proof (rule ccontr)
    assume "\<not> 0 \<le> t"
    then have "t * (1 - s) < 0" using assms(5) by (simp add: mult_neg_pos)
    then show False using assms(3,4,7) by linarith
  qed
  have "a / b - x / y = ((a - x) * y - x * (b - y)) / (b * y)"
    using bn assms(6) by (simp add: field_simps)
  then have "\<bar>a / b - x / y\<bar> = \<bar>(a - x) * y - x * (b - y)\<bar> / (\<bar>b\<bar> * \<bar>y\<bar>)"
    by (simp add: abs_mult)
  also have "\<dots> \<le> ((r + s) * (\<bar>x\<bar> * \<bar>y\<bar>)) / (\<bar>b\<bar> * \<bar>y\<bar>)"
  proof (intro divide_right_mono)
    have "\<bar>(a - x) * y - x * (b - y)\<bar> \<le> \<bar>a - x\<bar> * \<bar>y\<bar> + \<bar>x\<bar> * \<bar>b - y\<bar>"
      using abs_triangle_ineq4[of "(a - x) * y" "x * (b - y)"] by (simp add: abs_mult)
    also have "\<dots> \<le> (r * \<bar>x\<bar>) * \<bar>y\<bar> + \<bar>x\<bar> * (s * \<bar>y\<bar>)"
      using assms by (intro add_mono mult_mono) simp_all
    also have "\<dots> = (r + s) * (\<bar>x\<bar> * \<bar>y\<bar>)" by (simp add: algebra_simps)
    finally show "\<bar>(a - x) * y - x * (b - y)\<bar> \<le> (r + s) * (\<bar>x\<bar> * \<bar>y\<bar>)" .
  qed simp
  also have "\<dots> = (r + s) * \<bar>x\<bar> / \<bar>b\<bar>" using y by simp
  also have "\<dots> \<le> (r + s) * \<bar>x\<bar> / ((1 - s) * \<bar>y\<bar>)"
    using b bp assms(3,4,5,6) by (intro divide_left_mono mult_pos_pos) (simp_all add: b0 bn)
  also have "\<dots> \<le> (t * (1 - s)) * \<bar>x\<bar> / ((1 - s) * \<bar>y\<bar>)"
    using assms(7) bp by (intro divide_right_mono mult_right_mono) simp_all
  also have "\<dots> = t * \<bar>x / y\<bar>" using assms(5) by (simp add: abs_divide)
  finally show ?thesis .
qed

lemma cos_lipschitz: "\<bar>cos a - cos b\<bar> \<le> \<bar>a - b\<bar>" for a b :: real
proof -
  have "\<bar>cos a - cos b\<bar> = 2 * (\<bar>sin ((a + b) / 2)\<bar> * \<bar>sin ((b - a) / 2)\<bar>)"
    unfolding cos_diff_cos by (simp add: abs_mult)
  also have "\<dots> \<le> 2 * (1 * \<bar>(b - a) / 2\<bar>)"
    by (intro mult_left_mono mult_mono abs_sin_le_one abs_sin_x_le_abs_x) simp_all
  also have "\<dots> = \<bar>a - b\<bar>" by simp
  finally show ?thesis .
qed

lemma err_rnd:
  assumes "\<bar>a - x\<bar> \<le> d" "\<bar>x\<bar> \<le> B" "d + (B + d) / 2 ^ 53 \<le> d'"
  shows "\<bar>rnd a - x\<bar> \<le> d'"
proof -
  have "\<bar>a\<bar> \<le> B + d" using assms(1,2) by linarith
  from rnd_error_le[OF this] show ?thesis using assms(1,3) by linarith
qed

lemma err_mul:
  fixes a x k k' :: real
  assumes "\<bar>k' - k\<bar> \<le> e" "\<bar>a - x\<bar> \<le> d" "\<bar>k'\<bar> \<le> K" "\<bar>x\<bar> \<le> B" "K * d + e * B \<le> g"
  shows "\<bar>k' * a - k * x\<bar> \<le> g"
proof -
  have "k' * a - k * x = k' * (a - x) + (k' - k) * x" by (simp add: algebra_simps)
  then have "\<bar>k' * a - k * x\<bar> \<le> \<bar>k'\<bar> * \<bar>a - x\<bar> + \<bar>k' - k\<bar> * \<bar>x\<bar>"
    using abs_triangle_ineq[of "k' * (a - x)" "(k' - k) * x"] by (simp add: abs_mult)
  also have "\<dots> \<le> K * d + e * B"
    using assms(1-4) by (intro add_mono mult_mono) simp_all
  finally show ?thesis using assms(5) by linarith
qed

lemma rnd_const:
  assumes "\<bar>k\<bar> \<le> B"
  shows "\<bar>rnd k - k\<bar> \<le> B / 2 ^ 53" "\<bar>rnd k\<bar> \<le> B + B / 2 ^ 53"
proof -
  show "\<bar>rnd k - k\<bar> \<le> B / 2 ^ 53" by (rule rnd_error_le[OF assms])
  then show "\<bar>rnd k\<bar> \<le> B + B / 2 ^ 53" using assms by linarith
qed

text \<open>The rounded angle of an index is within seven roundings of the exact one.\<close>

lemma angle_f64_error:
  fixes c n d :: real
  assumes "0 \<le> c" "1 \<le> d" "0 \<le> n" "n \<le> d"
  shows "\<bar>rnd (rnd (rnd (c * np_pi) * rnd n) / rnd d) - c * pi * n / d\<bar> \<le> 7 / 2 ^ 53 * (c * pi)"
proof -
  have p0: "\<bar>np_pi - pi\<bar> \<le> 1 / 2 ^ 53 * \<bar>pi\<bar>" using rnd_error[of pi] by (simp add: np_pi_def)
  have c0: "\<bar>c - c\<bar> \<le> 0 * \<bar>c\<bar>" by simp
  have p1: "\<bar>c * np_pi - c * pi\<bar> \<le> 1 / 2 ^ 53 * \<bar>c * pi\<bar>"
    by (rule rel_mul[OF c0 p0]) simp_all
  have p2: "\<bar>rnd (c * np_pi) - c * pi\<bar> \<le> 201 / 100 / 2 ^ 53 * \<bar>c * pi\<bar>"
    by (rule rel_rnd[OF p1]) simp_all
  have n0: "\<bar>rnd n - n\<bar> \<le> 1 / 2 ^ 53 * \<bar>n\<bar>" using rnd_error[of n] by simp
  have p3: "\<bar>rnd (c * np_pi) * rnd n - c * pi * n\<bar> \<le> 302 / 100 / 2 ^ 53 * \<bar>c * pi * n\<bar>"
    by (rule rel_mul[OF p2 n0]) simp_all
  have p4: "\<bar>rnd (rnd (c * np_pi) * rnd n) - c * pi * n\<bar> \<le> 403 / 100 / 2 ^ 53 * \<bar>c * pi * n\<bar>"
    by (rule rel_rnd[OF p3]) simp_all
  have d0: "\<bar>rnd d - d\<bar> \<le> 1 / 2 ^ 53 * \<bar>d\<bar>" using rnd_error[of d] by simp
  have p5: "\<bar>rnd (rnd (c * np_pi) * rnd n) / rnd d - c * pi * n / d\<bar>
            \<le> 504 / 100 / 2 ^ 53 * \<bar>c * pi * n / d\<bar>"
    by (rule rel_div[OF p4 d0]) (use assms in simp_all)
  have p6: "\<bar>rnd (rnd (rnd (c * np_pi) * rnd n) / rnd d) - c * pi * n / d\<bar>
            \<le> 605 / 100 / 2 ^ 53 * \<bar>c * pi * n / d\<bar>"
    by (rule rel_rnd[OF p5]) simp_all
  have "n / d \<le> 1" using assms by simp
  then have "c * pi * (n / d) \<le> c * pi * 1" using assms by (intro mult_left_mono) simp_all
  moreover have "0 \<le> c * pi * (n / d)" using assms by simp
  ultimately have "\<bar>c * pi * n / d\<bar> \<le> c * pi" by simp
  then have "605 / 100 / 2 ^ 53 * \<bar>c * pi * n / d\<bar> \<le> 605 / 100 / 2 ^ 53 * (c * pi)"
    by (intro mult_left_mono) simp_all
  also have "\<dots> \<le> 7 / 2 ^ 53 * (c * pi)" using assms by (intro mult_right_mono) simp_all
  finally show ?thesis using p6 by linarith
qed

lemma err_sub:
  fixes a x k k' :: real
  assumes "\<bar>k' - k\<bar> \<le> e" "\<bar>a - x\<bar> \<le> d" "e + d \<le> g"
  shows "\<bar>(k' - a) - (k - x)\<bar> \<le> g"
  using assms by linarith

lemma err_add:
  fixes a x b y :: real
  assumes "\<bar>a - x\<bar> \<le> e" "\<bar>b - y\<bar> \<le> d" "e + d \<le> g"
  shows "\<bar>(a + b) - (x + y)\<bar> \<le> g"
  using assms by linarith

lemma bound_sub:
  fixes k x :: real
  assumes "\<bar>x\<bar> \<le> m" "\<bar>k\<bar> + m \<le> B"
  shows "\<bar>k - x\<bar> \<le> B"
  using assms by linarith

lemma bound_add:
  fixes x y :: real
  assumes "\<bar>x\<bar> \<le> m" "\<bar>y\<bar> \<le> m'" "m + m' \<le> B"
  shows "\<bar>x + y\<bar> \<le> B"
  using assms by linarith

lemma cos_f64_error:
  assumes "\<bar>a - t\<bar> \<le> E" "E + (1 + E) / 2 ^ 53 \<le> E'"
  shows "\<bar>rnd (cos a) - cos t\<bar> \<le> E'"
proof -
  have "\<bar>cos a - cos t\<bar> \<le> E" using cos_lipschitz[of a t] assms(1) by linarith
  then show ?thesis by (rule err_rnd[where B = 1]) (use assms(2) in simp_all)
qed

lemma scaled_cos_le: "0 \<le> k \<Longrightarrow> \<bar>k * cos t\<bar> \<le> k" for k t :: real
proof -
  assume k: "0 \<le> k"
  have "\<bar>k * cos t\<bar> = k * \<bar>cos t\<bar>" using k by (simp add: abs_mult)
  also have "\<dots> \<le> k * 1" using k by (intro mult_left_mono) simp_all
  finally show ?thesis by simp
qed

lemma angle_two_pi_error:
  fixes n d :: real
  assumes "1 \<le> d" "0 \<le> n" "n \<le> d"
  shows "\<bar>rnd (rnd (rnd (2 * np_pi) * rnd n) / rnd d) - 2 * pi * n / d\<bar> \<le> 45 / 2 ^ 53"
proof -
  have "7 / 2 ^ 53 * (2 * pi) \<le> (45 / 2 ^ 53 :: real)" using pi_bounds(2) by simp
  with angle_f64_error[of 2 d n] assms show ?thesis by simp
qed

lemma angle_four_pi_error:
  fixes n d :: real
  assumes "1 \<le> d" "0 \<le> n" "n \<le> d"
  shows "\<bar>rnd (rnd (rnd (4 * np_pi) * rnd n) / rnd d) - 4 * pi * n / d\<bar> \<le> 90 / 2 ^ 53"
proof -
  have "7 / 2 ^ 53 * (4 * pi) \<le> (90 / 2 ^ 53 :: real)" using pi_bounds(2) by simp
  with angle_f64_error[of 4 d n] assms show ?thesis by simp
qed

lemma hamming_f64_error:
  assumes "\<bar>a - t\<bar> \<le> 45 / 2 ^ 53"
  shows "\<bar>rnd (rnd 0.54 - rnd (rnd 0.46 * rnd (cos a))) - (0.54 - 0.46 * cos t)\<bar>
         \<le> 1 / (2 * 10 ^ 14)"
proof -
  have c: "\<bar>rnd (cos a) - cos t\<bar> \<le> 461 / 10 / 2 ^ 53"
    by (rule cos_f64_error[OF assms]) simp
  have k46: "\<bar>rnd 0.46 - 0.46\<bar> \<le> 0.46 / 2 ^ 53" "\<bar>rnd 0.46\<bar> \<le> 0.46 + 0.46 / 2 ^ 53"
    by (rule rnd_const, simp)+
  have k54: "\<bar>rnd 0.54 - 0.54\<bar> \<le> 0.54 / 2 ^ 53"
    by (rule rnd_const) simp
  have p: "\<bar>rnd 0.46 * rnd (cos a) - 0.46 * cos t\<bar> \<le> 222 / 10 / 2 ^ 53"
    by (rule err_mul[OF k46(1) c k46(2), where B = 1]) simp_all
  have p': "\<bar>rnd (rnd 0.46 * rnd (cos a)) - 0.46 * cos t\<bar> \<le> 227 / 10 / 2 ^ 53"
    by (rule err_rnd[OF p, where B = "0.46"]) (simp_all add: scaled_cos_le)
  have s: "\<bar>(rnd 0.54 - rnd (rnd 0.46 * rnd (cos a))) - (0.54 - 0.46 * cos t)\<bar>
           \<le> 233 / 10 / 2 ^ 53"
    by (rule err_sub[OF k54 p']) simp
  have b: "\<bar>0.54 - 0.46 * cos t\<bar> \<le> 1"
    by (rule bound_sub[where m = "0.46"]) (simp_all add: scaled_cos_le)
  show ?thesis by (rule err_rnd[OF s b]) simp
qed

lemma hanning_f64_error:
  assumes "\<bar>a - t\<bar> \<le> 45 / 2 ^ 53"
  shows "\<bar>rnd (rnd 0.5 * rnd (rnd 1 - rnd (cos a))) - 0.5 * (1 - cos t)\<bar> \<le> 1 / (2 * 10 ^ 14)"
proof -
  have c: "\<bar>rnd (cos a) - cos t\<bar> \<le> 461 / 10 / 2 ^ 53"
    by (rule cos_f64_error[OF assms]) simp
  have k1: "\<bar>rnd 1 - 1\<bar> \<le> 1 / 2 ^ 53"
    by (rule rnd_const) simp
  have k05: "\<bar>rnd 0.5 - 0.5\<bar> \<le> 0.5 / 2 ^ 53" "\<bar>rnd 0.5\<bar> \<le> 0.5 + 0.5 / 2 ^ 53"
    by (rule rnd_const, simp)+
  have s: "\<bar>(rnd 1 - rnd (cos a)) - (1 - cos t)\<bar> \<le> 471 / 10 / 2 ^ 53"
    by (rule err_sub[OF k1 c]) simp
  have b2: "\<bar>1 - cos t\<bar> \<le> 2"
    using cos_ge_minus_one[of t] cos_le_one[of t] by (simp add: abs_le_iff)
  have s': "\<bar>rnd (rnd 1 - rnd (cos a)) - (1 - cos t)\<bar> \<le> 492 / 10 / 2 ^ 53"
    by (rule err_rnd[OF s b2]) simp
  have p: "\<bar>rnd 0.5 * rnd (rnd 1 - rnd (cos a)) - 0.5 * (1 - cos t)\<bar> \<le> 257 / 10 / 2 ^ 53"
    by (rule err_mul[OF k05(1) s' k05(2) b2]) simp
  have b: "\<bar>0.5 * (1 - cos t)\<bar> \<le> 1"
    using b2 by (simp add: abs_le_iff)
  show ?thesis by (rule err_rnd[OF p b]) simp
qed

lemma blackman_f64_error:
  assumes "\<bar>a - t\<bar> \<le> 45 / 2 ^ 53" "\<bar>a' - t'\<bar> \<le> 90 / 2 ^ 53"
  shows "\<bar>rnd (rnd (rnd 0.42 - rnd (rnd 0.5 * rnd (cos a))) + rnd (rnd 0.08 * rnd (cos a')))
          - (0.42 - 0.5 * cos t + 0.08 * cos t')\<bar> \<le> 1 / (2 * 10 ^ 14)"
proof -
  have c: "\<bar>rnd (cos a) - cos t\<bar> \<le> 461 / 10 / 2 ^ 53"
    by (rule cos_f64_error[OF assms(1)]) simp
  have c': "\<bar>rnd (cos a') - cos t'\<bar> \<le> 911 / 10 / 2 ^ 53"
    by (rule cos_f64_error[OF assms(2)]) simp
  have k05: "\<bar>rnd 0.5 - 0.5\<bar> \<le> 0.5 / 2 ^ 53" "\<bar>rnd 0.5\<bar> \<le> 0.5 + 0.5 / 2 ^ 53"
    by (rule rnd_const, simp)+
  have k08: "\<bar>rnd 0.08 - 0.08\<bar> \<le> 0.08 / 2 ^ 53" "\<bar>rnd 0.08\<bar> \<le> 0.08 + 0.08 / 2 ^ 53"
    by (rule rnd_const, simp)+
  have k42: "\<bar>rnd 0.42 - 0.42\<bar> \<le> 0.42 / 2 ^ 53"
    by (rule rnd_const) simp
  have q: "\<bar>rnd 0.5 * rnd (cos a) - 0.5 * cos t\<bar> \<le> 236 / 10 / 2 ^ 53"
    by (rule err_mul[OF k05(1) c k05(2), where B = 1]) simp_all
  have q': "\<bar>rnd (rnd 0.5 * rnd (cos a)) - 0.5 * cos t\<bar> \<le> 242 / 10 / 2 ^ 53"
    by (rule err_rnd[OF q, where B = "0.5"]) (simp_all add: scaled_cos_le)
  have r: "\<bar>(rnd 0.42 - rnd (rnd 0.5 * rnd (cos a))) - (0.42 - 0.5 * cos t)\<bar>
           \<le> 247 / 10 / 2 ^ 53"
    by (rule err_sub[OF k42 q']) simp
  have br: "\<bar>0.42 - 0.5 * cos t\<bar> \<le> 0.92"
    by (rule bound_sub[where m = "0.5"]) (simp_all add: scaled_cos_le)
  have r': "\<bar>rnd (rnd 0.42 - rnd (rnd 0.5 * rnd (cos a))) - (0.42 - 0.5 * cos t)\<bar>
            \<le> 257 / 10 / 2 ^ 53"
    by (rule err_rnd[OF r br]) simp
  have e: "\<bar>rnd 0.08 * rnd (cos a') - 0.08 * cos t'\<bar> \<le> 74 / 10 / 2 ^ 53"
    by (rule err_mul[OF k08(1) c' k08(2), where B = 1]) simp_all
  have e': "\<bar>rnd (rnd 0.08 * rnd (cos a')) - 0.08 * cos t'\<bar> \<le> 75 / 10 / 2 ^ 53"
    by (rule err_rnd[OF e, where B = "0.08"]) (simp_all add: scaled_cos_le)
  have s: "\<bar>(rnd (rnd 0.42 - rnd (rnd 0.5 * rnd (cos a))) + rnd (rnd 0.08 * rnd (cos a')))
            - ((0.42 - 0.5 * cos t) + 0.08 * cos t')\<bar> \<le> 332 / 10 / 2 ^ 53"
    by (rule err_add[OF r' e']) simp
  have b: "\<bar>(0.42 - 0.5 * cos t) + 0.08 * cos t'\<bar> \<le> 1"
    by (rule bound_add[OF br, where m' = "0.08"]) (simp_all add: scaled_cos_le)
  show ?thesis by (rule err_rnd[OF s b]) simp
qed

lemma index_ratio:
  assumes "2 \<le> N" "n < nat N"
  shows "1 \<le> real_of_int (N - 1)" "0 \<le> real n" "real n \<le> real_of_int (N - 1)"
proof -
  show "1 \<le> real_of_int (N - 1)" using assms(1) by simp
  show "0 \<le> real n" by simp
  have "int n \<le> N - 1" using assms by linarith
  then have "real_of_int (int n) \<le> real_of_int (N - 1)" by (rule of_int_le_iff[THEN iffD2])
  then show "real n \<le> real_of_int (N - 1)" by simp
qed

lemma hamming_window_f64_close:
  assumes "2 \<le> N" "n < nat N"
  shows "\<exists>a x. hamming_window_f64 N ! n = Num a \<and> hamming_window N ! n = Num x
               \<and> \<bar>a - x\<bar> \<le> 1 / (2 * 10 ^ 14)"
  unfolding hamming_window_f64_nth[OF assms] hamming_window_nth[OF assms]
  using hamming_f64_error[OF angle_two_pi_error[OF index_ratio[OF assms]]] by blast

lemma hanning_window_f64_close:
  assumes "2 \<le> N" "n < nat N"
  shows "\<exists>a x. hanning_window_f64 N ! n = Num a \<and> hanning_window N ! n = Num x
               \<and> \<bar>a - x\<bar> \<le> 1 / (2 * 10 ^ 14)"
  unfolding hanning_window_f64_nth[OF assms] hanning_window_nth[OF assms]
  using hanning_f64_error[OF angle_two_pi_error[OF index_ratio[OF assms]]] by blast

lemma blackman_window_f64_close:
  assumes "2 \<le> N" "n < nat N"
  shows "\<exists>a x. blackman_window_f64 N ! n = Num a \<and> blackman_window N ! n = Num x
               \<and> \<bar>a - x\<bar> \<le> 1 / (2 * 10 ^ 14)"
  unfolding blackman_window_f64_nth[OF assms] blackman_window_nth[OF assms]
  using blackman_f64_error[OF angle_two_pi_error[OF index_ratio[OF assms]]
      angle_four_pi_error[OF index_ratio[OF assms]]] by blast

lemma close_pair:
  fixes a b x y :: real
  assumes "\<bar>a - x\<bar> \<le> 1 / (2 * 10 ^ 14)" "\<bar>b - y\<bar> \<le> 1 / (2 * 10 ^ 14)" "x = y"
  shows "\<bar>a - b\<bar> \<le> 1 / 10 ^ 14"
proof -
  have "\<bar>a - b\<bar> \<le> 1 / (2 * 10 ^ 14) + 1 / (2 * 10 ^ 14)" using assms by linarith
  then show ?thesis by simp
qed


text \<open>
  C7, amended. For each window family, every \<open>N \<ge> 2\<close> and every index \<open>n\<close> in \<open>[0, N)\<close>, the
  float64 weights \<open>w[n]\<close> and \<open>w[N - 1 - n]\<close> are numbers and differ by at most \<open>1e-14\<close>:
  the window is symmetric within floating tolerance. Without rounding the two are equal
  (\<open>window_symmetric_exact\<close>).
\<close>

theorem window_f64_symmetric_within_rounding:
  assumes "2 \<le> N" and "n < nat N"
  shows "(\<exists>a b. hamming_window_f64 N ! n = Num a
               \<and> hamming_window_f64 N ! (nat N - 1 - n) = Num b \<and> \<bar>a - b\<bar> \<le> 1 / 10 ^ 14)
       \<and> (\<exists>a b. hanning_window_f64 N ! n = Num a
               \<and> hanning_window_f64 N ! (nat N - 1 - n) = Num b \<and> \<bar>a - b\<bar> \<le> 1 / 10 ^ 14)
       \<and> (\<exists>a b. blackman_window_f64 N ! n = Num a
               \<and> blackman_window_f64 N ! (nat N - 1 - n) = Num b \<and> \<bar>a - b\<bar> \<le> 1 / 10 ^ 14)"
proof -
  have m: "nat N - 1 - n < nat N" using assms by linarith
  note sym = window_symmetric_exact[OF assms]
  have "\<exists>a b. hamming_window_f64 N ! n = Num a
          \<and> hamming_window_f64 N ! (nat N - 1 - n) = Num b \<and> \<bar>a - b\<bar> \<le> 1 / 10 ^ 14"
  proof -
    from hamming_window_f64_close[OF assms] obtain a x where
      a: "hamming_window_f64 N ! n = Num a" "hamming_window N ! n = Num x"
         "\<bar>a - x\<bar> \<le> 1 / (2 * 10 ^ 14)" by blast
    from hamming_window_f64_close[OF assms(1) m] obtain b y where
      b: "hamming_window_f64 N ! (nat N - 1 - n) = Num b"
         "hamming_window N ! (nat N - 1 - n) = Num y" "\<bar>b - y\<bar> \<le> 1 / (2 * 10 ^ 14)" by blast
    have "x = y" using sym a(2) b(2) by simp
    from close_pair[OF a(3) b(3) this] a(1) b(1) show ?thesis by blast
  qed
  moreover have "\<exists>a b. hanning_window_f64 N ! n = Num a
          \<and> hanning_window_f64 N ! (nat N - 1 - n) = Num b \<and> \<bar>a - b\<bar> \<le> 1 / 10 ^ 14"
  proof -
    from hanning_window_f64_close[OF assms] obtain a x where
      a: "hanning_window_f64 N ! n = Num a" "hanning_window N ! n = Num x"
         "\<bar>a - x\<bar> \<le> 1 / (2 * 10 ^ 14)" by blast
    from hanning_window_f64_close[OF assms(1) m] obtain b y where
      b: "hanning_window_f64 N ! (nat N - 1 - n) = Num b"
         "hanning_window N ! (nat N - 1 - n) = Num y" "\<bar>b - y\<bar> \<le> 1 / (2 * 10 ^ 14)" by blast
    have "x = y" using sym a(2) b(2) by simp
    from close_pair[OF a(3) b(3) this] a(1) b(1) show ?thesis by blast
  qed
  moreover have "\<exists>a b. blackman_window_f64 N ! n = Num a
          \<and> blackman_window_f64 N ! (nat N - 1 - n) = Num b \<and> \<bar>a - b\<bar> \<le> 1 / 10 ^ 14"
  proof -
    from blackman_window_f64_close[OF assms] obtain a x where
      a: "blackman_window_f64 N ! n = Num a" "blackman_window N ! n = Num x"
         "\<bar>a - x\<bar> \<le> 1 / (2 * 10 ^ 14)" by blast
    from blackman_window_f64_close[OF assms(1) m] obtain b y where
      b: "blackman_window_f64 N ! (nat N - 1 - n) = Num b"
         "blackman_window N ! (nat N - 1 - n) = Num y" "\<bar>b - y\<bar> \<le> 1 / (2 * 10 ^ 14)" by blast
    have "x = y" using sym a(2) b(2) by simp
    from close_pair[OF a(3) b(3) this] a(1) b(1) show ?thesis by blast
  qed
  ultimately show ?thesis by blast
qed

theorem window_f64_symmetric_within_rounding_witness:
  "(2::int) \<le> 4 \<and> (1::nat) < nat 4
   \<and> (\<exists>a b. hamming_window_f64 4 ! 1 = Num a
          \<and> hamming_window_f64 4 ! (nat 4 - 1 - 1) = Num b \<and> \<bar>a - b\<bar> \<le> 1 / 10 ^ 14)
   \<and> (\<exists>a b. hanning_window_f64 4 ! 1 = Num a
          \<and> hanning_window_f64 4 ! (nat 4 - 1 - 1) = Num b \<and> \<bar>a - b\<bar> \<le> 1 / 10 ^ 14)
   \<and> (\<exists>a b. blackman_window_f64 4 ! 1 = Num a
          \<and> blackman_window_f64 4 ! (nat 4 - 1 - 1) = Num b \<and> \<bar>a - b\<bar> \<le> 1 / 10 ^ 14)"
  using window_f64_symmetric_within_rounding[of 4 1] by simp

end
